theory Spec2Isabelle
  imports Main
begin

section \<open>JavaScript strings\<close>

text \<open>
  A JavaScript string is a sequence of UTF-16 code units. A code unit is modelled as a
  natural number (below \<open>65536\<close> in every string the engine can build), a string as the
  list of its code units, so that \<open>length\<close> is the \<open>.length\<close> of the source.
  \<open>str\<close> turns an ASCII literal of this text into such a string.
\<close>

type_synonym jsstring = "nat list"

definition str :: "string \<Rightarrow> jsstring" where
  "str s = map of_char s"

datatype js_error = InvalidCharacterError | URIError

section \<open>The injector: \<open>content.js\<close>\<close>

subsection \<open>Constants\<close>

definition DISABLE_KEY :: jsstring where
  "DISABLE_KEY = str ''__disable_js_overrides__''"

definition SCRIPT_PREFIX :: jsstring where
  "SCRIPT_PREFIX = str ''override-script-''"



subsection \<open>\<open>btoa\<close> and the derived element id\<close>

text \<open>
  \<open>btoa\<close> is the platform's Base64 encoder of a binary string: it throws
  \<open>InvalidCharacterError\<close> when a code unit is above 255, and otherwise encodes the
  code units as bytes, three bytes to four characters of the Base64 alphabet, padding
  the last group with \<open>=\<close>.
\<close>

definition b64_alphabet :: jsstring where
  "b64_alphabet = str ''ABCDEFGHIJKLMNOPQRSTUVWXYZabcdefghijklmnopqrstuvwxyz0123456789+/''"

definition b64_char :: "nat \<Rightarrow> nat" where
  "b64_char i = b64_alphabet ! (i mod 64)"

fun b64 :: "nat list \<Rightarrow> jsstring" where
  "b64 [] = []"
| "b64 [a] = [b64_char (a div 4), b64_char ((a mod 4) * 16), 61, 61]"
| "b64 [a, b] =
     [b64_char (a div 4), b64_char ((a mod 4) * 16 + b div 16), b64_char ((b mod 16) * 4), 61]"
| "b64 (a # b # c # rest) =
     [b64_char (a div 4), b64_char ((a mod 4) * 16 + b div 16),
      b64_char ((b mod 16) * 4 + c div 64), b64_char (c mod 64)] @ b64 rest"

definition btoa :: "jsstring \<Rightarrow> js_error + jsstring" where
  "btoa s = (if \<exists>c \<in> set s. 255 < c then Inl InvalidCharacterError else Inr (b64 s))"

text \<open>\<open>.replace(/[+/=]/g, "")\<close>: every \<open>+\<close> (43), \<open>/\<close> (47) and \<open>=\<close> (61) is dropped.\<close>

definition strip_b64 :: "jsstring \<Rightarrow> jsstring" where
  "strip_b64 s = filter (\<lambda>c. c \<noteq> 43 \<and> c \<noteq> 47 \<and> c \<noteq> 61) s"

text \<open>The first line of \<open>loadScript\<close>: the element id derived from the override key.\<close>

definition scriptId :: "jsstring \<Rightarrow> js_error + jsstring" where
  "scriptId key =
     (case btoa key of Inl e \<Rightarrow> Inl e | Inr b \<Rightarrow> Inr (SCRIPT_PREFIX @ strip_b64 b))"

subsection \<open>String methods\<close>

text \<open>
  \<open>String.prototype.trim\<close> removes white space and line terminators from both ends:
  TAB, LF, VT, FF, CR, SP, NBSP, U+1680, U+2000 to U+200A, U+2028, U+2029, U+202F,
  U+205F, U+3000 and U+FEFF.
\<close>

definition is_ws :: "nat \<Rightarrow> bool" where
  "is_ws c \<longleftrightarrow>
     (9 \<le> c \<and> c \<le> 13) \<or> c = 32 \<or> c = 160 \<or> c = 5760 \<or> (8192 \<le> c \<and> c \<le> 8202) \<or>
     c = 8232 \<or> c = 8233 \<or> c = 8239 \<or> c = 8287 \<or> c = 12288 \<or> c = 65279"

definition trim :: "jsstring \<Rightarrow> jsstring" where
  "trim s = rev (dropWhile is_ws (rev (dropWhile is_ws s)))"

text \<open>\<open>s.split(sep)\<close> for a separator of one code unit; the empty string gives \<open>[""]\<close>.\<close>

fun split :: "nat \<Rightarrow> jsstring \<Rightarrow> jsstring list" where
  "split sep [] = [[]]"
| "split sep (c # cs) =
     (if c = sep then [] # split sep cs
      else (case split sep cs of [] \<Rightarrow> [[c]] | p # ps \<Rightarrow> (c # p) # ps))"

text \<open>\<open>s.indexOf(c)\<close> for one code unit; \<open>None\<close> stands for \<open>-1\<close>.\<close>

fun indexOf :: "nat \<Rightarrow> jsstring \<Rightarrow> nat option" where
  "indexOf c [] = None"
| "indexOf c (x # xs) = (if x = c then Some 0 else map_option Suc (indexOf c xs))"

text \<open>
  A \<open>Map\<close> keeps its keys in insertion order; \<open>set\<close> on a key that is present replaces
  the value in place.
\<close>

fun map_set :: "'k \<Rightarrow> 'v \<Rightarrow> ('k \<times> 'v) list \<Rightarrow> ('k \<times> 'v) list" where
  "map_set k v [] = [(k, v)]"
| "map_set k v ((k', v') # m) = (if k' = k then (k, v) # m else (k', v') # map_set k v m)"

subsection \<open>\<open>encodeURIComponent\<close> and \<open>decodeURIComponent\<close>\<close>

text \<open>
  The two platform functions, after the ECMAScript definitions of \<open>Encode\<close> and \<open>Decode\<close>.
  Encoding keeps the unreserved code units (letters, digits and \<open>- _ . ! ~ * ' ( )\<close>),
  and writes every other code point as the \<open>%XX\<close> escapes of its UTF-8 octets; a
  surrogate that is not part of a pair throws \<open>URIError\<close>.
\<close>

definition unescaped :: "nat \<Rightarrow> bool" where
  "unescaped c \<longleftrightarrow>
     (65 \<le> c \<and> c \<le> 90) \<or> (97 \<le> c \<and> c \<le> 122) \<or> (48 \<le> c \<and> c \<le> 57) \<or>
     c = 45 \<or> c = 95 \<or> c = 46 \<or> c = 33 \<or> c = 126 \<or> c = 42 \<or> c = 39 \<or> c = 40 \<or> c = 41"

definition hex_digit :: "nat \<Rightarrow> nat" where
  "hex_digit d = (if d < 10 then 48 + d else 55 + d)"

definition pct :: "nat \<Rightarrow> jsstring" where
  "pct b = [37, hex_digit (b div 16), hex_digit (b mod 16)]"

definition utf8 :: "nat \<Rightarrow> nat list" where
  "utf8 cp =
     (if cp < 128 then [cp]
      else if cp < 2048 then [192 + cp div 64, 128 + cp mod 64]
      else if cp < 65536 then [224 + cp div 4096, 128 + (cp div 64) mod 64, 128 + cp mod 64]
      else [240 + cp div 262144, 128 + (cp div 4096) mod 64, 128 + (cp div 64) mod 64,
            128 + cp mod 64])"

definition escape :: "nat \<Rightarrow> jsstring" where
  "escape cp = concat (map pct (utf8 cp))"

definition is_lead :: "nat \<Rightarrow> bool" where
  "is_lead c \<longleftrightarrow> 55296 \<le> c \<and> c \<le> 56319"

definition is_trail :: "nat \<Rightarrow> bool" where
  "is_trail c \<longleftrightarrow> 56320 \<le> c \<and> c \<le> 57343"

definition prepend :: "'a list \<Rightarrow> js_error + 'a list \<Rightarrow> js_error + 'a list" where
  "prepend xs r = (case r of Inl e \<Rightarrow> Inl e | Inr ys \<Rightarrow> Inr (xs @ ys))"

fun encodeURIComponent :: "jsstring \<Rightarrow> js_error + jsstring" where
  "encodeURIComponent [] = Inr []"
| "encodeURIComponent (c # rest) =
     (if unescaped c then prepend [c] (encodeURIComponent rest)
      else if is_lead c then
        (case rest of
           [] \<Rightarrow> Inl URIError
         | d # rest' \<Rightarrow>
             if is_trail d
             then prepend (escape ((c - 55296) * 1024 + (d - 56320) + 65536))
                    (encodeURIComponent rest')
             else Inl URIError)
      else if is_trail c then Inl URIError
      else prepend (escape c) (encodeURIComponent rest))"

text \<open>
  Decoding copies every code unit other than \<open>%\<close>; a \<open>%\<close> must start an escape \<open>%XX\<close>
  of two hexadecimal digits. An octet below 128 is the code unit itself; otherwise its
  leading one bits give the length (2 to 4) of a UTF-8 sequence whose other octets must
  follow as escapes, and the sequence must be the well-formed encoding of a code point,
  which is appended in UTF-16. Everything else throws \<open>URIError\<close>.
\<close>

definition hex_value :: "nat \<Rightarrow> nat option" where
  "hex_value c =
     (if 48 \<le> c \<and> c \<le> 57 then Some (c - 48)
      else if 65 \<le> c \<and> c \<le> 70 then Some (c - 55)
      else if 97 \<le> c \<and> c \<le> 102 then Some (c - 87)
      else None)"

definition parse_hex_octet :: "nat \<Rightarrow> nat \<Rightarrow> nat option" where
  "parse_hex_octet h l =
     (case hex_value h of
        None \<Rightarrow> None
      | Some a \<Rightarrow> (case hex_value l of None \<Rightarrow> None | Some b \<Rightarrow> Some (16 * a + b)))"

fun take_octets :: "nat \<Rightarrow> jsstring \<Rightarrow> (nat list \<times> jsstring) option" where
  "take_octets 0 s = Some ([], s)"
| "take_octets (Suc n) (p # h # l # s) =
     (if p = 37 then
        (case parse_hex_octet h l of
           None \<Rightarrow> None
         | Some b \<Rightarrow>
             (case take_octets n s of None \<Rightarrow> None | Some (bs, r) \<Rightarrow> Some (b # bs, r)))
      else None)"
| "take_octets (Suc n) s = None"

definition leading_ones :: "nat \<Rightarrow> nat" where
  "leading_ones b =
     (if b < 128 then 0 else if b < 192 then 1 else if b < 224 then 2
      else if b < 240 then 3 else if b < 248 then 4 else 5)"

definition continuation :: "nat \<Rightarrow> bool" where
  "continuation b \<longleftrightarrow> 128 \<le> b \<and> b < 192"

fun utf8_decode :: "nat list \<Rightarrow> nat option" where
  "utf8_decode [a, b] =
     (let cp = (a - 192) * 64 + (b - 128)
      in if continuation b \<and> 128 \<le> cp then Some cp else None)"
| "utf8_decode [a, b, c] =
     (let cp = (a - 224) * 4096 + (b - 128) * 64 + (c - 128)
      in if continuation b \<and> continuation c \<and> 2048 \<le> cp \<and> \<not> (55296 \<le> cp \<and> cp \<le> 57343)
         then Some cp else None)"
| "utf8_decode [a, b, c, d] =
     (let cp = (a - 240) * 262144 + (b - 128) * 4096 + (c - 128) * 64 + (d - 128)
      in if continuation b \<and> continuation c \<and> continuation d \<and> 65536 \<le> cp \<and> cp \<le> 1114111
         then Some cp else None)"
| "utf8_decode bs = None"

definition utf16 :: "nat \<Rightarrow> jsstring" where
  "utf16 cp =
     (if cp < 65536 then [cp]
      else [55296 + (cp - 65536) div 1024, 56320 + (cp - 65536) mod 1024])"

function decodeURIComponent :: "jsstring \<Rightarrow> js_error + jsstring" where
  "decodeURIComponent [] = Inr []"
| "decodeURIComponent (c # rest) =
     (if c \<noteq> 37 then prepend [c] (decodeURIComponent rest)
      else
        (case rest of
           h # l # rest' \<Rightarrow>
             (case parse_hex_octet h l of
                None \<Rightarrow> Inl URIError
              | Some b \<Rightarrow>
                  let n = leading_ones b
                  in if n = 0 then prepend [b] (decodeURIComponent rest')
                     else if n = 1 \<or> 4 < n then Inl URIError
                     else
                       (case take_octets (n - 1) rest' of
                          None \<Rightarrow> Inl URIError
                        | Some (bs, r) \<Rightarrow>
                            (case utf8_decode (b # bs) of
                               None \<Rightarrow> Inl URIError
                             | Some cp \<Rightarrow> prepend (utf16 cp) (decodeURIComponent r))))
         | _ \<Rightarrow> Inl URIError))"
  by pat_completeness auto
termination
proof (relation "measure length", goal_cases)
  case (4 c rest h list l rest' b n x2 bs r cp)
  have shorter: "take_octets k s = Some (os, t) \<Longrightarrow> length t \<le> length s" for k s os t
  proof (induction k s arbitrary: os t rule: take_octets.induct)
    case (2 k p h l s)
    then show ?case
      by (fastforce split: if_splits option.splits)
  qed auto
  from 4 show ?case
    using shorter [of "n - 1" rest' bs r] by simp
qed simp_all

subsection \<open>The page\<close>

text \<open>
  The document is the list of its elements that matter here, in document order; an
  element carries its id and, for a script, its source URL. \<open>getElementById\<close> returns
  the first element with the id, \<open>el.remove()\<close> takes that one element out.
\<close>

record element =
  el_id :: jsstring
  el_src :: jsstring

fun getElementById :: "jsstring \<Rightarrow> element list \<Rightarrow> element option" where
  "getElementById i [] = None"
| "getElementById i (e # es) = (if el_id e = i then Some e else getElementById i es)"

fun remove_element :: "jsstring \<Rightarrow> element list \<Rightarrow> element list" where
  "remove_element i [] = []"
| "remove_element i (e # es) = (if el_id e = i then es else e # remove_element i es)"

text \<open>
  What the page has been seen to do: the cookie string read, a script element appended
  (key, URL, attempt number), an element removed, the retry timer of a key armed with
  its delay, the timer of the deferred start armed. Console output is not modelled.
\<close>

datatype page_event =
    CookieRead
  | Appended jsstring jsstring nat
  | Removed jsstring
  | RetrySet jsstring nat
  | TimerSet nat

text \<open>
  Callbacks the page is waiting for: the outcome of a script element's fetch (the
  \<open>onload\<close>, \<open>onerror\<close> and \<open>onabort\<close> handlers of \<open>loadScript\<close>, which hold
  the element id, the key, the URL and the attempt number), the retry timer armed by
  \<open>onerror\<close> (which holds the same), and the two deferred starts of \<open>initialize\<close>.
\<close>

datatype page_task =
    ScriptOutcome jsstring jsstring jsstring nat
  | RetryTimer jsstring jsstring jsstring nat
  | DOMContentLoaded
  | StartTimer

text \<open>
  The page: its local storage, the string that \<open>document.cookie\<close> reads, the strings
  assigned to \<open>document.cookie\<close> (how the browser turns them into the cookies it reports
  is its own business and not modelled), whether \<open>document.head\<close> exists and whether
  \<open>document.readyState\<close> is \<open>"loading"\<close>, the document, the callbacks waiting and the
  events seen.
\<close>

record page =
  localStorage :: "(jsstring \<times> jsstring) list"
  cookie :: jsstring
  cookie_writes :: "jsstring list"
  has_head :: bool
  loading :: bool
  dom :: "element list"
  waiting :: "page_task list"
  seen :: "page_event list"

subsection \<open>\<open>loadScript\<close>\<close>

text \<open>
  \<open>loadScript(key, url, attempt)\<close> up to the point where it returns: the id is computed
  (\<open>btoa\<close> may throw), an element that already has the id ends the call, otherwise the
  script element is created and appended to the head, and its handlers wait for the
  outcome. Where the document has no head, \<open>document.head.appendChild\<close> throws; the
  \<open>catch\<close> detaches the handlers, so nothing is appended and nothing waited for.
\<close>

definition loadScript :: "jsstring \<Rightarrow> jsstring \<Rightarrow> nat \<Rightarrow> page \<Rightarrow> js_error + page" where
  "loadScript key url attempt pg =
     (case scriptId key of
        Inl e \<Rightarrow> Inl e
      | Inr sid \<Rightarrow>
          (case getElementById sid (dom pg) of
             Some _ \<Rightarrow> Inr pg
           | None \<Rightarrow>
               if has_head pg then
                 Inr (pg\<lparr>dom := dom pg @ [\<lparr>el_id = sid, el_src = url\<rparr>],
                         waiting := waiting pg @ [ScriptOutcome sid key url attempt],
                         seen := seen pg @ [Appended key url attempt]\<rparr>)
               else Inr pg))"

subsection \<open>Reading the cookies\<close>

text \<open>
  One round of the \<open>forEach\<close> of \<open>parseCookies\<close> over the segments between \<open>;\<close>: a
  segment that is empty after trimming, has no \<open>=\<close> or has an empty key is skipped; a
  value that \<open>decodeURIComponent\<close> rejects is stored as it is.
\<close>

definition parse_segment :: "(jsstring \<times> jsstring) list \<Rightarrow> jsstring \<Rightarrow> (jsstring \<times> jsstring) list" where
  "parse_segment cookieMap cookieStr =
     (let trimmed = trim cookieStr
      in if trimmed = [] then cookieMap
         else
           (case indexOf 61 trimmed of
              None \<Rightarrow> cookieMap
            | Some equalIndex \<Rightarrow>
                let key = trim (take equalIndex trimmed);
                    value = drop (equalIndex + 1) trimmed
                in if key = [] then cookieMap
                   else
                     (case decodeURIComponent value of
                        Inr v \<Rightarrow> map_set key v cookieMap
                      | Inl _ \<Rightarrow> map_set key value cookieMap)))"

definition parseCookies :: "jsstring \<Rightarrow> (jsstring \<times> jsstring) list" where
  "parseCookies document_cookie =
     (if trim document_cookie = [] then []
      else foldl parse_segment [] (split 59 document_cookie))"

definition isValidOverrideKey :: "jsstring \<Rightarrow> bool" where
  "isValidOverrideKey key \<longleftrightarrow> key \<noteq> [] \<and> 47 \<in> set key \<and> 1 < length key"

text \<open>
  \<open>isValidUrl\<close> asks the platform's URL parser for the protocol; the parser is a
  parameter here: it gives the protocol of a URL, or \<open>None\<close> where \<open>new URL\<close> throws.
\<close>

definition isValidUrl :: "(jsstring \<Rightarrow> jsstring option) \<Rightarrow> jsstring \<Rightarrow> bool" where
  "isValidUrl url_protocol url \<longleftrightarrow>
     url \<noteq> [] \<and>
     (case url_protocol url of
        None \<Rightarrow> False
      | Some protocol \<Rightarrow> protocol = str ''http:'' \<or> protocol = str ''https:'')"

subsection \<open>The handlers of a script element\<close>




subsection \<open>\<open>injectScripts\<close>, \<open>initialize\<close> and the start of the injector\<close>

text \<open>
  The \<open>forEach\<close> of \<open>injectScripts\<close> over the cookie map. An exception of \<open>loadScript\<close>
  ends the loop; what earlier rounds did to the page stays.
\<close>

fun inject_each ::
  "(jsstring \<Rightarrow> jsstring option) \<Rightarrow> (jsstring \<times> jsstring) list \<Rightarrow> page \<Rightarrow> page \<times> js_error option"
where
  "inject_each url_protocol [] pg = (pg, None)"
| "inject_each url_protocol ((key, url) # cookies) pg =
     (if \<not> isValidOverrideKey key then inject_each url_protocol cookies pg
      else if \<not> isValidUrl url_protocol url then inject_each url_protocol cookies pg
      else
        (case loadScript key url 1 pg of
           Inl e \<Rightarrow> (pg, Some e)
         | Inr pg' \<Rightarrow> inject_each url_protocol cookies pg'))"

definition injectScripts :: "(jsstring \<Rightarrow> jsstring option) \<Rightarrow> page \<Rightarrow> page \<times> js_error option" where
  "injectScripts url_protocol pg =
     (if \<not> has_head pg then (pg, None)
      else
        (let cookies = parseCookies (cookie pg);
             pg1 = pg\<lparr>seen := seen pg @ [CookieRead]\<rparr>
         in if cookies = [] then (pg1, None) else inject_each url_protocol cookies pg1))"

text \<open>\<open>initialize\<close>, inside the \<open>try\<close> that catches whatever \<open>injectScripts\<close> throws.\<close>

definition initialize :: "(jsstring \<Rightarrow> jsstring option) \<Rightarrow> page \<Rightarrow> page" where
  "initialize url_protocol pg =
     (if has_head pg then fst (injectScripts url_protocol pg)
      else if loading pg then pg\<lparr>waiting := waiting pg @ [DOMContentLoaded]\<rparr>
      else pg\<lparr>waiting := waiting pg @ [StartTimer], seen := seen pg @ [TimerSet 0]\<rparr>)"

text \<open>
  The body of the content script, run once per page load: the check of the page-local
  flag comes first and ends the script.
\<close>

definition injector :: "(jsstring \<Rightarrow> jsstring option) \<Rightarrow> page \<Rightarrow> page" where
  "injector url_protocol pg =
     (if map_of (localStorage pg) DISABLE_KEY = Some (str ''true'') then pg
      else initialize url_protocol pg)"

subsection \<open>The page's event loop\<close>











subsection \<open>What a run does about one override\<close>











section \<open>The controller: \<open>popup.tsx\<close>\<close>

subsection \<open>Profiles and the host\<close>

record OverrideEntry =
  appName :: jsstring
  featureKey :: jsstring
  entry_url :: jsstring

record Profile =
  profile_name :: jsstring
  overrides :: "OverrideEntry list"

text \<open>
  What the browser reports: a cookie of the store, the parsed URL of a tab (the
  \<open>protocol\<close> and \<open>hostname\<close> of \<open>new URL(tab.url)\<close>), and a tab, whose id and URL may be
  missing.
\<close>

record cookie_rec =
  cookie_name :: jsstring
  cookie_value :: jsstring
  cookie_domain :: jsstring
  cookie_path :: jsstring

record location =
  loc_protocol :: jsstring
  loc_hostname :: jsstring

record tab =
  tab_id :: "nat option"
  tab_location :: "location option"

text \<open>
  The host's answers are parameters of the model: the first tab that
  \<open>chrome.tabs.query\<close> reports (if any), the cookies \<open>chrome.cookies.getAll\<close> returns for a
  domain and an optional name, and whether \<open>chrome.scripting.executeScript\<close> runs the
  function in the page and fulfils its promise.
\<close>

record host =
  tabs_query :: "tab option"
  cookies_getAll :: "jsstring \<Rightarrow> jsstring option \<Rightarrow> cookie_rec list"
  script_runs :: bool

text \<open>The calls the controller makes on the host, in the order in which it makes them.\<close>

datatype effect =
    TabsQuery
  | CookiesGetAll jsstring "jsstring option"
  | CookiesRemove jsstring jsstring
  | InsertCSS nat
  | ExecuteScript nat
  | TabsReload nat bool
  | StorageSet "Profile list"
  | ConsoleError

text \<open>
  A \<open>disableProfile\<close> call that has reached its tab: the per-key promises that
  \<open>Promise.all\<close> still waits for, the tab id, the profile and its keys.
\<close>

record disable_op =
  keys_left :: nat
  op_tab :: nat
  op_profile :: Profile
  op_keys :: "jsstring list"

text \<open>
  The callbacks the controller is waiting for. The \<open>n\<close> callbacks of the \<open>n\<close>
  \<open>chrome.cookies.remove\<close> calls of one round share the counter \<open>removedCount\<close>; the
  callback that runs as the \<open>i\<close>-th finds it at \<open>i\<close> after its increment, so each
  callback is written with that number and the total.
\<close>

datatype task =
    ClearAll_tab Profile
  | ClearAll_cookies location Profile
  | ClearAll_removed nat nat Profile
  | Apply_tab Profile "jsstring list"
  | Apply_script nat Profile "jsstring list"
  | Disable_tab Profile "jsstring list"
  | Disable_cookies nat location jsstring
  | Disable_removed nat nat nat
  | Disable_script nat Profile "jsstring list"
  | Delete_stored "Profile list" jsstring

text \<open>
  The state of the popup (the React state that the lifecycle operations use), the
  stored collection, the page of the active tab, and the bookkeeping of the model.
  A call of an operation reads the state as it is when the call arrives:
  \<open>setIsLoading\<close> is taken to be visible to the next call at once.
\<close>

record popup =
  isLoading :: bool
  error_message :: "jsstring option"
  savedProfiles :: "Profile list"
  activeProfiles :: "jsstring list"
  storage :: "Profile list"
  tab_page :: page
  queue :: "task list"
  effects :: "effect list"
  disabling :: "(nat \<times> disable_op) list"

subsection \<open>Cookie names and values\<close>

text \<open>\<open>`${o.appName}/${o.featureKey}`\<close>, the override key.\<close>

definition cookie_key :: "OverrideEntry \<Rightarrow> jsstring" where
  "cookie_key entry = appName entry @ [47] @ featureKey entry"

text \<open>\<open>`${o.appName}/${o.featureKey}=${encodeURIComponent(o.url)}`\<close>.\<close>

definition cookie_string :: "OverrideEntry \<Rightarrow> js_error + jsstring" where
  "cookie_string entry =
     prepend (cookie_key entry @ [61]) (encodeURIComponent (entry_url entry))"

text \<open>\<open>profile.overrides.map(...)\<close>: an exception in one round ends the whole \<open>map\<close>.\<close>

fun cookie_array :: "OverrideEntry list \<Rightarrow> js_error + jsstring list" where
  "cookie_array [] = Inr []"
| "cookie_array (entry # entries) =
     (case cookie_string entry of
        Inl e \<Rightarrow> Inl e
      | Inr s \<Rightarrow> prepend [s] (cookie_array entries))"

text \<open>
  The URL handed to \<open>chrome.cookies.remove\<close>: the tab's protocol, \<open>//\<close>, the cookie's
  domain without a leading dot, and the cookie's path.
\<close>

definition remove_url :: "location \<Rightarrow> cookie_rec \<Rightarrow> jsstring" where
  "remove_url loc c =
     loc_protocol loc @ str ''//'' @
     (case cookie_domain c of
        [] \<Rightarrow> []
      | d # ds \<Rightarrow> if d = 46 then ds else d # ds) @
     cookie_path c"

definition remove_call :: "location \<Rightarrow> cookie_rec \<Rightarrow> effect" where
  "remove_call loc c = CookiesRemove (remove_url loc c) (cookie_name c)"

subsection \<open>Functions run in the page\<close>

definition removeItem :: "jsstring \<Rightarrow> (jsstring \<times> jsstring) list \<Rightarrow> (jsstring \<times> jsstring) list" where
  "removeItem k items = filter (\<lambda>(k', v). k' \<noteq> k) items"

text \<open>
  The function \<open>applyProfile\<close> hands to \<open>executeScript\<close>: it removes the disable flag and
  assigns every cookie string to \<open>document.cookie\<close>.
\<close>

definition apply_in_page :: "jsstring list \<Rightarrow> page \<Rightarrow> page" where
  "apply_in_page cookieArr pg =
     pg\<lparr>localStorage := removeItem DISABLE_KEY (localStorage pg),
        cookie_writes := cookie_writes pg @ cookieArr\<rparr>"

text \<open>
  The function \<open>disableProfile\<close> hands to \<open>executeScript\<close>: it sets the disable flag and,
  for every key, removes the element whose id is \<open>`override-script-${key}`\<close>, if the
  document has one.
\<close>

definition remove_script_tag :: "page \<Rightarrow> jsstring \<Rightarrow> page" where
  "remove_script_tag pg key =
     (case getElementById (str ''override-script-'' @ key) (dom pg) of
        None \<Rightarrow> pg
      | Some _ \<Rightarrow>
          pg\<lparr>dom := remove_element (str ''override-script-'' @ key) (dom pg),
             seen := seen pg @ [Removed (str ''override-script-'' @ key)]\<rparr>)"

definition disable_in_page :: "jsstring list \<Rightarrow> page \<Rightarrow> page" where
  "disable_in_page keys pg =
     foldl remove_script_tag
       (pg\<lparr>localStorage := map_set DISABLE_KEY (str ''true'') (localStorage pg)\<rparr>) keys"

subsection \<open>\<open>clearAllOverrideCookies\<close> and \<open>applyProfile\<close>\<close>

text \<open>
  \<open>applyProfile\<close> up to its \<open>await\<close>: the guard, the two state updates, and the call of
  \<open>clearAllOverrideCookies\<close>, which asks for the active tab.
\<close>

definition clearAllOverrideCookies :: "Profile \<Rightarrow> popup \<Rightarrow> popup" where
  "clearAllOverrideCookies profile st =
     st\<lparr>effects := effects st @ [TabsQuery], queue := queue st @ [ClearAll_tab profile]\<rparr>"

definition applyProfile :: "Profile \<Rightarrow> popup \<Rightarrow> popup" where
  "applyProfile profile st =
     (if isLoading st then st
      else clearAllOverrideCookies profile (st\<lparr>isLoading := True, error_message := None\<rparr>))"

text \<open>
  \<open>applyProfile\<close> after the \<open>await\<close>, which runs once the promise of
  \<open>clearAllOverrideCookies\<close> is resolved: the cookie strings are built, the active tab is
  asked for again, and the \<open>finally\<close> block clears \<open>isLoading\<close>. An exception of
  \<open>encodeURIComponent\<close> is caught and shown.
\<close>

definition apply_resumed :: "Profile \<Rightarrow> popup \<Rightarrow> popup" where
  "apply_resumed profile st =
     (case cookie_array (overrides profile) of
        Inl e \<Rightarrow>
          st\<lparr>error_message := Some (str ''URI malformed''),
             effects := effects st @ [ConsoleError],
             isLoading := False\<rparr>
      | Inr cookieArray \<Rightarrow>
          st\<lparr>effects := effects st @ [TabsQuery],
             queue := queue st @ [Apply_tab profile cookieArray],
             isLoading := False\<rparr>)"

text \<open>\<open>!tab?.id || !tab.url\<close>: there is no tab, its id is missing or 0, or it has no URL.\<close>

definition usable_tab :: "tab option \<Rightarrow> (nat \<times> location) option" where
  "usable_tab t =
     (case t of
        None \<Rightarrow> None
      | Some tb \<Rightarrow>
          (case tab_id tb of
             None \<Rightarrow> None
           | Some i \<Rightarrow>
               if i = 0 then None
               else (case tab_location tb of None \<Rightarrow> None | Some loc \<Rightarrow> Some (i, loc))))"

text \<open>The three callbacks of \<open>clearAllOverrideCookies\<close>.\<close>

definition clearAll_tab :: "host \<Rightarrow> Profile \<Rightarrow> popup \<Rightarrow> popup" where
  "clearAll_tab h profile st =
     (case usable_tab (tabs_query h) of
        None \<Rightarrow> apply_resumed profile st
      | Some (i, loc) \<Rightarrow>
          st\<lparr>effects := effects st @ [CookiesGetAll (loc_hostname loc) None],
             queue := queue st @ [ClearAll_cookies loc profile]\<rparr>)"

definition clearAll_cookies :: "host \<Rightarrow> location \<Rightarrow> Profile \<Rightarrow> popup \<Rightarrow> popup" where
  "clearAll_cookies h loc profile st =
     (let overrideCookies =
            filter (\<lambda>c. 47 \<in> set (cookie_name c)) (cookies_getAll h (loc_hostname loc) None);
          totalToRemove = length overrideCookies
      in if overrideCookies = [] then apply_resumed profile st
         else
           st\<lparr>effects := effects st @ map (remove_call loc) overrideCookies,
              queue := queue st @
                map (\<lambda>i. ClearAll_removed i totalToRemove profile) [1..<totalToRemove + 1]\<rparr>)"

definition clearAll_removed :: "nat \<Rightarrow> nat \<Rightarrow> Profile \<Rightarrow> popup \<Rightarrow> popup" where
  "clearAll_removed removedCount totalToRemove profile st =
     (if removedCount = totalToRemove then apply_resumed profile st else st)"

text \<open>
  The callback of the second tab query: with a tab that has an id, the style sheet is
  inserted and the script is sent.
\<close>

definition apply_tab :: "host \<Rightarrow> Profile \<Rightarrow> jsstring list \<Rightarrow> popup \<Rightarrow> popup" where
  "apply_tab h profile cookieArray st =
     (case tabs_query h of
        None \<Rightarrow> st
      | Some tb \<Rightarrow>
          (case tab_id tb of
             None \<Rightarrow> st
           | Some i \<Rightarrow>
               st\<lparr>effects := effects st @ [InsertCSS i, ExecuteScript i],
                  queue := queue st @ [Apply_script i profile cookieArray]\<rparr>))"

text \<open>
  The promise of \<open>executeScript\<close> settles. Fulfilled: the function has run in the page,
  the profile's name joins the active set unless it is there, and the tab is reloaded
  by \<open>chrome.tabs.reload(tab.id)\<close>, with no second argument. Rejected: \<open>console.error\<close>.
\<close>

definition apply_script :: "host \<Rightarrow> nat \<Rightarrow> Profile \<Rightarrow> jsstring list \<Rightarrow> popup \<Rightarrow> popup" where
  "apply_script h i profile cookieArray st =
     (if script_runs h then
        st\<lparr>tab_page := apply_in_page cookieArray (tab_page st),
           activeProfiles :=
             (if profile_name profile \<in> set (activeProfiles st) then activeProfiles st
              else activeProfiles st @ [profile_name profile]),
           effects := effects st @ [TabsReload i False]\<rparr>
      else st\<lparr>effects := effects st @ [ConsoleError]\<rparr>)"

subsection \<open>\<open>disableProfile\<close>\<close>

text \<open>
  The call itself: the guard, the state updates, the keys, the tab query made by the
  promise's executor, and the \<open>finally\<close> block, which runs as the call returns the
  promise.
\<close>

definition disableProfile :: "Profile \<Rightarrow> popup \<Rightarrow> popup" where
  "disableProfile profile st =
     (if isLoading st then st
      else
        (let cookieKeys = map cookie_key (overrides profile)
         in st\<lparr>error_message := None,
               effects := effects st @ [TabsQuery],
               queue := queue st @ [Disable_tab profile cookieKeys],
               isLoading := False\<rparr>))"

text \<open>After \<open>Promise.all\<close>: the script is sent to the tab.\<close>

definition disable_send :: "nat \<Rightarrow> Profile \<Rightarrow> jsstring list \<Rightarrow> popup \<Rightarrow> popup" where
  "disable_send i profile ks st =
     st\<lparr>effects := effects st @ [ExecuteScript i],
        queue := queue st @ [Disable_script i profile ks]\<rparr>"

text \<open>
  The callback of the tab query: one \<open>chrome.cookies.getAll\<close> per key, restricted to the
  key as name. With no key at all \<open>Promise.all\<close> has nothing to wait for.
\<close>

definition disable_tab :: "host \<Rightarrow> Profile \<Rightarrow> jsstring list \<Rightarrow> popup \<Rightarrow> popup" where
  "disable_tab h profile ks st =
     (case usable_tab (tabs_query h) of
        None \<Rightarrow> st
      | Some (i, loc) \<Rightarrow>
          if ks = [] then disable_send i profile ks st
          else
            (let n = length (disabling st)
             in st\<lparr>effects := effects st @ map (\<lambda>k. CookiesGetAll (loc_hostname loc) (Some k)) ks,
                   queue := queue st @ map (Disable_cookies n loc) ks,
                   disabling := disabling st @
                     [(n, \<lparr>keys_left = length ks, op_tab = i, op_profile = profile,
                           op_keys = ks\<rparr>)]\<rparr>))"

text \<open>
  One per-key promise is resolved; when it was the last one of its \<open>disableProfile\<close>
  call, the script is sent.
\<close>

definition key_resolved :: "nat \<Rightarrow> popup \<Rightarrow> popup" where
  "key_resolved n st =
     (case map_of (disabling st) n of
        None \<Rightarrow> st
      | Some d \<Rightarrow>
          (let st1 = st\<lparr>disabling := map_set n (d\<lparr>keys_left := keys_left d - 1\<rparr>) (disabling st)\<rparr>
           in if keys_left d = 1 then disable_send (op_tab d) (op_profile d) (op_keys d) st1
              else st1))"

definition disable_cookies :: "host \<Rightarrow> nat \<Rightarrow> location \<Rightarrow> jsstring \<Rightarrow> popup \<Rightarrow> popup" where
  "disable_cookies h n loc k st =
     (let cookies = cookies_getAll h (loc_hostname loc) (Some k)
      in if cookies = [] then key_resolved n st
         else
           st\<lparr>effects := effects st @ map (remove_call loc) cookies,
              queue := queue st @
                map (\<lambda>i. Disable_removed i (length cookies) n) [1..<length cookies + 1]\<rparr>)"

definition disable_removed :: "nat \<Rightarrow> nat \<Rightarrow> nat \<Rightarrow> popup \<Rightarrow> popup" where
  "disable_removed removedCount totalCount n st =
     (if removedCount = totalCount then key_resolved n st else st)"

text \<open>
  The promise of \<open>executeScript\<close> settles. Fulfilled: the function has run in the page,
  the profile's name leaves the active set, and the tab is reloaded by
  \<open>chrome.tabs.reload(tab.id!, { bypassCache: true })\<close>. Rejected: the promise that
  \<open>disableProfile\<close> returned is rejected, and nothing else happens.
\<close>

definition disable_script :: "host \<Rightarrow> nat \<Rightarrow> Profile \<Rightarrow> jsstring list \<Rightarrow> popup \<Rightarrow> popup" where
  "disable_script h i profile ks st =
     (if script_runs h then
        st\<lparr>tab_page := disable_in_page ks (tab_page st),
           activeProfiles := filter (\<lambda>n. n \<noteq> profile_name profile) (activeProfiles st),
           effects := effects st @ [TabsReload i True]\<rparr>
      else st)"

subsection \<open>\<open>deleteProfile\<close>\<close>

text \<open>
  The call: the guard, the state updates, the write of the filtered collection to the
  storage, and the \<open>finally\<close> block. The callback of the write updates the two pieces of
  React state.
\<close>

definition deleteProfile :: "jsstring \<Rightarrow> popup \<Rightarrow> popup" where
  "deleteProfile nm st =
     (if isLoading st then st
      else
        (let updated = filter (\<lambda>p. profile_name p \<noteq> nm) (savedProfiles st)
         in st\<lparr>error_message := None,
               storage := updated,
               effects := effects st @ [StorageSet updated],
               queue := queue st @ [Delete_stored updated nm],
               isLoading := False\<rparr>))"

definition delete_stored :: "Profile list \<Rightarrow> jsstring \<Rightarrow> popup \<Rightarrow> popup" where
  "delete_stored updated nm st =
     st\<lparr>savedProfiles := updated,
        activeProfiles := filter (\<lambda>n. n \<noteq> nm) (activeProfiles st)\<rparr>"

subsection \<open>The controller's event loop\<close>

definition popup_step :: "host \<Rightarrow> task \<Rightarrow> popup \<Rightarrow> popup" where
  "popup_step h t st =
     (case t of
        ClearAll_tab profile \<Rightarrow> clearAll_tab h profile st
      | ClearAll_cookies loc profile \<Rightarrow> clearAll_cookies h loc profile st
      | ClearAll_removed i n profile \<Rightarrow> clearAll_removed i n profile st
      | Apply_tab profile cookieArray \<Rightarrow> apply_tab h profile cookieArray st
      | Apply_script i profile cookieArray \<Rightarrow> apply_script h i profile cookieArray st
      | Disable_tab profile ks \<Rightarrow> disable_tab h profile ks st
      | Disable_cookies n loc k \<Rightarrow> disable_cookies h n loc k st
      | Disable_removed i m n \<Rightarrow> disable_removed i m n st
      | Disable_script i profile ks \<Rightarrow> disable_script h i profile ks st
      | Delete_stored updated nm \<Rightarrow> delete_stored updated nm st)"


text \<open>
  The controller runs its callbacks one at a time, in the order in which they were
  registered, until none is left. Every callback registers only callbacks of a later
  stage of its operation, which is why this ends.
\<close>

fun task_stage :: "task \<Rightarrow> nat" where
  "task_stage (ClearAll_tab p) = 0"
| "task_stage (ClearAll_cookies loc p) = 1"
| "task_stage (ClearAll_removed i n p) = 2"
| "task_stage (Apply_tab p cs) = 3"
| "task_stage (Apply_script i p cs) = 4"
| "task_stage (Disable_tab p ks) = 0"
| "task_stage (Disable_cookies n loc k) = 1"
| "task_stage (Disable_removed i m n) = 2"
| "task_stage (Disable_script i p ks) = 3"
| "task_stage (Delete_stored u nm) = 0"

definition at_stage :: "nat \<Rightarrow> popup \<Rightarrow> nat" where
  "at_stage k st = length (filter (\<lambda>t. task_stage t = k) (queue st))"

lemma apply_resumed_queue:
  "\<exists>new. queue (apply_resumed p st) = queue st @ new \<and> (\<forall>u \<in> set new. task_stage u = 3)"
  by (auto simp: apply_resumed_def split: sum.splits)

lemma key_resolved_queue:
  "\<exists>new. queue (key_resolved n st) = queue st @ new \<and> (\<forall>u \<in> set new. task_stage u = 3)"
  by (auto simp: key_resolved_def disable_send_def Let_def split: option.splits)

lemma popup_step_queue:
  "\<exists>new. queue (popup_step h t (st\<lparr>queue := ts\<rparr>)) = ts @ new \<and>
         (\<forall>u \<in> set new. task_stage t < task_stage u)"
proof (cases t)
  case (ClearAll_tab p)
  then show ?thesis
    using apply_resumed_queue [of p "st\<lparr>queue := ts\<rparr>"]
    by (auto simp: popup_step_def clearAll_tab_def split: option.splits)
next
  case (ClearAll_cookies loc p)
  then show ?thesis
    using apply_resumed_queue [of p "st\<lparr>queue := ts\<rparr>"]
    by (auto simp: popup_step_def clearAll_cookies_def Let_def)
next
  case (ClearAll_removed i n p)
  then show ?thesis
    using apply_resumed_queue [of p "st\<lparr>queue := ts\<rparr>"]
    by (auto simp: popup_step_def clearAll_removed_def)
next
  case (Apply_tab p cs)
  then show ?thesis
    by (auto simp: popup_step_def apply_tab_def split: option.splits)
next
  case (Apply_script i p cs)
  then show ?thesis
    by (auto simp: popup_step_def apply_script_def)
next
  case (Disable_tab p ks)
  then show ?thesis
    by (auto simp: popup_step_def disable_tab_def disable_send_def Let_def split: option.splits)
next
  case (Disable_cookies n loc k)
  then show ?thesis
    using key_resolved_queue [of n "st\<lparr>queue := ts\<rparr>"]
    by (auto simp: popup_step_def disable_cookies_def Let_def)
next
  case (Disable_removed i m n)
  then show ?thesis
    using key_resolved_queue [of n "st\<lparr>queue := ts\<rparr>"]
    by (auto simp: popup_step_def disable_removed_def)
next
  case (Disable_script i p ks)
  then show ?thesis
    by (auto simp: popup_step_def disable_script_def)
next
  case (Delete_stored u nm)
  then show ?thesis
    by (auto simp: popup_step_def delete_stored_def)
qed

lemma task_stage_bound: "task_stage t \<le> 4"
  by (cases t) auto

lemma filter_later:
  "\<forall>u \<in> set new. k < task_stage u \<Longrightarrow> j \<le> k \<Longrightarrow> filter (\<lambda>t. task_stage t = j) new = []"
  by (auto simp: filter_empty_conv)

lemma popup_step_rank:
  assumes "queue st = t # ts"
  shows "((h, popup_step h t (st\<lparr>queue := ts\<rparr>)), (h, st)) \<in>
           measures [\<lambda>(h, st). at_stage 0 st, \<lambda>(h, st). at_stage 1 st, \<lambda>(h, st). at_stage 2 st,
                     \<lambda>(h, st). at_stage 3 st, \<lambda>(h, st). at_stage 4 st]"
proof -
  obtain new where q: "queue (popup_step h t (st\<lparr>queue := ts\<rparr>)) = ts @ new"
    and later: "\<forall>u \<in> set new. task_stage t < task_stage u"
    using popup_step_queue by blast
  have same: "at_stage j (popup_step h t (st\<lparr>queue := ts\<rparr>)) = at_stage j st"
    if "j < task_stage t" for j
    using that assms q filter_later [OF later, of j] by (simp add: at_stage_def)
  have less: "at_stage (task_stage t) (popup_step h t (st\<lparr>queue := ts\<rparr>)) < at_stage (task_stage t) st"
    using assms q filter_later [OF later, of "task_stage t"] by (simp add: at_stage_def)
  consider "task_stage t = 0" | "task_stage t = 1" | "task_stage t = 2" | "task_stage t = 3"
    | "task_stage t = 4"
    using task_stage_bound [of t] by linarith
  then show ?thesis
  proof cases
    case 1 with less show ?thesis by simp
  next
    case 2 with less same [of 0] show ?thesis by simp
  next
    case 3 with less same [of 0] same [of 1] show ?thesis by simp
  next
    case 4 with less same [of 0] same [of 1] same [of 2] show ?thesis by simp
  next
    case 5 with less same [of 0] same [of 1] same [of 2] same [of 3] show ?thesis by simp
  qed
qed

function run_popup :: "host \<Rightarrow> popup \<Rightarrow> popup" where
  "run_popup h st =
     (case queue st of
        [] \<Rightarrow> st
      | t # ts \<Rightarrow> run_popup h (popup_step h t (st\<lparr>queue := ts\<rparr>)))"
  by pat_completeness auto
termination
proof (relation "measures [\<lambda>(h, st). at_stage 0 st, \<lambda>(h, st). at_stage 1 st,
    \<lambda>(h, st). at_stage 2 st, \<lambda>(h, st). at_stage 3 st, \<lambda>(h, st). at_stage 4 st]", goal_cases)
  case 1
  show ?case by simp
next
  case (2 h st t ts)
  then show ?case by (rule popup_step_rank)
qed

declare run_popup.simps [simp del]

text \<open>
  The calls an operation has made on the host: the effects of the state after it that
  the state before it did not have yet; and the \<open>chrome.cookies.remove\<close> calls among
  them.
\<close>

fun is_removal :: "effect \<Rightarrow> bool" where
  "is_removal (CookiesRemove u n) = True"
| "is_removal _ = False"

definition issued :: "popup \<Rightarrow> popup \<Rightarrow> effect list" where
  "issued st st' = drop (length (effects st)) (effects st')"

section \<open>A running example\<close>

text \<open>
  The override of the specification's scenario: key \<open>checkout/bootstrap/js\<close>, URL
  \<open>https://cdn.example.com/a.js\<close>, and a freshly loaded page with a head and nothing
  injected yet.
\<close>

definition demo_key :: jsstring where
  "demo_key = str ''checkout/bootstrap/js''"

definition demo_url :: jsstring where
  "demo_url = str ''https://cdn.example.com/a.js''"

definition demo_id :: jsstring where
  "demo_id = str ''override-script-Y2hlY2tvdXQvYm9vdHN0cmFwL2pz''"

definition blank_page :: page where
  "blank_page =
     \<lparr>localStorage = [], cookie = [], cookie_writes = [], has_head = True, loading = False,
      dom = [], waiting = [], seen = []\<rparr>"

text \<open>
  The profile of the scenario, a tab on \<open>https://shop.example.com\<close> with id 7, and a
  cookie store that holds the profile's cookie, the cookie of an older profile, a
  session cookie and a cookie whose name is a bare slash. The popup is idle.
\<close>

definition demo_entry :: OverrideEntry where
  "demo_entry = \<lparr>appName = str ''checkout'', featureKey = str ''bootstrap/js'', entry_url = demo_url\<rparr>"

definition demo_profile :: Profile where
  "demo_profile = \<lparr>profile_name = str ''demo'', overrides = [demo_entry]\<rparr>"

definition demo_location :: location where
  "demo_location = \<lparr>loc_protocol = str ''https:'', loc_hostname = str ''shop.example.com''\<rparr>"

definition demo_cookie :: cookie_rec where
  "demo_cookie =
     \<lparr>cookie_name = str ''checkout/bootstrap/js'',
      cookie_value = str ''https%3A%2F%2Fcdn.example.com%2Fa.js'',
      cookie_domain = str ''shop.example.com'', cookie_path = str ''/''\<rparr>"

definition legacy_cookie :: cookie_rec where
  "legacy_cookie =
     \<lparr>cookie_name = str ''legacy/bootstrap/js'', cookie_value = str ''https%3A%2F%2Fold.example.com%2Fb.js'',
      cookie_domain = str ''shop.example.com'', cookie_path = str ''/''\<rparr>"

definition session_cookie :: cookie_rec where
  "session_cookie =
     \<lparr>cookie_name = str ''session'', cookie_value = str ''4f2a'',
      cookie_domain = str ''.example.com'', cookie_path = str ''/''\<rparr>"

definition slash_cookie :: cookie_rec where
  "slash_cookie =
     \<lparr>cookie_name = str ''/'', cookie_value = str ''1'',
      cookie_domain = str ''.example.com'', cookie_path = str ''/''\<rparr>"

definition demo_host :: host where
  "demo_host =
     \<lparr>tabs_query = Some \<lparr>tab_id = Some 7, tab_location = Some demo_location\<rparr>,
      cookies_getAll = (\<lambda>d n. filter (\<lambda>c. case n of None \<Rightarrow> True | Some k \<Rightarrow> cookie_name c = k)
                          [demo_cookie, legacy_cookie, session_cookie, slash_cookie]),
      script_runs = True\<rparr>"

definition idle_popup :: popup where
  "idle_popup =
     \<lparr>isLoading = False, error_message = None, savedProfiles = [demo_profile],
      activeProfiles = [], storage = [demo_profile], tab_page = blank_page, queue = [],
      effects = [], disabling = []\<rparr>"

text \<open>The blank page after \<open>loadScript\<close> has injected the element of the example.\<close>

definition injected_page :: page where
  "injected_page =
     blank_page\<lparr>dom := [\<lparr>el_id = demo_id, el_src = demo_url\<rparr>],
                waiting := [ScriptOutcome demo_id demo_key demo_url 1],
                seen := [Appended demo_key demo_url 1]\<rparr>"





section \<open>Properties of the injector\<close>

lemma demo_scriptId: "scriptId demo_key = Inr demo_id"
  by (simp add: scriptId_def btoa_def str_def strip_b64_def b64_char_def b64_alphabet_def
      SCRIPT_PREFIX_def demo_key_def demo_id_def)



lemma getElementById_None: "getElementById i es = None \<longleftrightarrow> (\<forall>e \<in> set es. el_id e \<noteq> i)"
  by (induction es) auto

lemma getElementById_snoc:
  "getElementById i es = None \<Longrightarrow>
   getElementById i (es @ [e]) = (if el_id e = i then Some e else None)"
  by (induction es) (auto split: if_splits)

lemma remove_element_snoc:
  "getElementById i es = None \<Longrightarrow> el_id e = i \<Longrightarrow> remove_element i (es @ [e]) = es"
  by (induction es) (auto split: if_splits)

subsection \<open>Idempotent injection\<close>

text \<open>
  Claim C9. Per-key injection is idempotent. When the document already has an element
  with the id derived from the key, \<open>loadScript\<close> for that key returns with the page as
  it was: no element is created, no handler registered. When the document has none, the
  first call appends one element, a second call (with whatever attempt number) changes
  nothing, and exactly one element with the id exists afterwards (none where the
  document has no head to append to).
\<close>

theorem loadScript_idempotent:
  assumes "scriptId key = Inr sid"
  shows "(getElementById sid (dom pg) \<noteq> None \<longrightarrow> loadScript key url attempt pg = Inr pg) \<and>
         (getElementById sid (dom pg) = None \<longrightarrow>
            (\<exists>pg1. loadScript key url attempt pg = Inr pg1 \<and>
                   loadScript key url attempt' pg1 = Inr pg1 \<and>
                   length (filter (\<lambda>e. el_id e = sid) (dom pg1)) =
                     (if has_head pg then 1 else 0)))"
proof (intro conjI impI)
  assume "getElementById sid (dom pg) \<noteq> None"
  with assms show "loadScript key url attempt pg = Inr pg"
    by (auto simp: loadScript_def)
next
  assume fresh: "getElementById sid (dom pg) = None"
  then have none: "filter (\<lambda>e. el_id e = sid) (dom pg) = []"
    by (simp add: getElementById_None filter_empty_conv)
  show "\<exists>pg1. loadScript key url attempt pg = Inr pg1 \<and>
              loadScript key url attempt' pg1 = Inr pg1 \<and>
              length (filter (\<lambda>e. el_id e = sid) (dom pg1)) = (if has_head pg then 1 else 0)"
  proof (cases "has_head pg")
    case True
    define pg1 where
      "pg1 = pg\<lparr>dom := dom pg @ [\<lparr>el_id = sid, el_src = url\<rparr>],
                waiting := waiting pg @ [ScriptOutcome sid key url attempt],
                seen := seen pg @ [Appended key url attempt]\<rparr>"
    have first: "loadScript key url attempt pg = Inr pg1"
      using assms fresh True by (simp add: loadScript_def pg1_def)
    have "getElementById sid (dom pg1) \<noteq> None"
      using fresh by (simp add: pg1_def getElementById_snoc)
    then have second: "loadScript key url attempt' pg1 = Inr pg1"
      using assms by (auto simp: loadScript_def)
    have "length (filter (\<lambda>e. el_id e = sid) (dom pg1)) = 1"
      using none by (simp add: pg1_def)
    with first second True show ?thesis
      by auto
  next
    case False
    then have "loadScript key url a pg = Inr pg" for a
      using assms fresh by (simp add: loadScript_def)
    with none False show ?thesis
      by auto
  qed
qed

text \<open>
  The example, on a page that already holds the element of the key and on the blank
  page.
\<close>

theorem loadScript_idempotent_witness:
  "scriptId demo_key = Inr demo_id \<and>
   loadScript demo_key demo_url 1
       (blank_page\<lparr>dom := [\<lparr>el_id = demo_id, el_src = demo_url\<rparr>]\<rparr>) =
     Inr (blank_page\<lparr>dom := [\<lparr>el_id = demo_id, el_src = demo_url\<rparr>]\<rparr>) \<and>
   (\<exists>pg1. loadScript demo_key demo_url 1 blank_page = Inr pg1 \<and>
          loadScript demo_key demo_url 2 pg1 = Inr pg1 \<and>
          length (filter (\<lambda>e. el_id e = demo_id) (dom pg1)) = 1)"
  using loadScript_idempotent [OF demo_scriptId,
      of "blank_page\<lparr>dom := [\<lparr>el_id = demo_id, el_src = demo_url\<rparr>]\<rparr>" demo_url 1 2]
    loadScript_idempotent [OF demo_scriptId, of blank_page demo_url 1 2]
  by (simp add: demo_scriptId blank_page_def)

subsection \<open>The disable flag\<close>

text \<open>
  Claim C8. When the page-local flag \<open>__disable_js_overrides__\<close> holds \<open>"true"\<close> at the
  start of the injector, the injector returns at once and leaves the page as it is:
  the cookie string is not read, no element is appended, no callback is registered,
  whatever the cookies are.
\<close>

theorem injector_disabled:
  "map_of (localStorage pg) DISABLE_KEY = Some (str ''true'') \<Longrightarrow> injector url_protocol pg = pg"
  by (simp add: injector_def)

theorem injector_disabled_witness:
  "map_of [(DISABLE_KEY, str ''true'')] DISABLE_KEY = Some (str ''true'') \<and>
   injector (\<lambda>u. Some (str ''https:''))
       (blank_page\<lparr>localStorage := [(DISABLE_KEY, str ''true'')],
                   cookie := str ''checkout/bootstrap/js=https%3A%2F%2Fcdn.example.com%2Fa.js''\<rparr>) =
     blank_page\<lparr>localStorage := [(DISABLE_KEY, str ''true'')],
                cookie := str ''checkout/bootstrap/js=https%3A%2F%2Fcdn.example.com%2Fa.js''\<rparr>"
  using injector_disabled [of
      "blank_page\<lparr>localStorage := [(DISABLE_KEY, str ''true'')],
                  cookie := str ''checkout/bootstrap/js=https%3A%2F%2Fcdn.example.com%2Fa.js''\<rparr>"
      "\<lambda>u. Some (str ''https:'')"]
  by simp

subsection \<open>The retry bound\<close>
























section \<open>Properties of the controller\<close>

lemma run_popup_Nil: "queue st = [] \<Longrightarrow> run_popup h st = st"
  by (simp add: run_popup.simps)

lemma run_popup_Cons:
  "queue st = t # ts \<Longrightarrow> run_popup h st = run_popup h (popup_step h t (st\<lparr>queue := ts\<rparr>))"
  by (simp add: run_popup.simps)

lemma demo_cookie_array:
  "cookie_array (overrides demo_profile) =
     Inr [str ''checkout/bootstrap/js=https%3A%2F%2Fcdn.example.com%2Fa.js'']"
  by (simp add: demo_profile_def demo_entry_def demo_url_def cookie_key_def cookie_string_def
      prepend_def str_def unescaped_def is_lead_def is_trail_def escape_def utf8_def pct_def
      hex_digit_def)

lemma demo_apply_run:
  "run_popup demo_host (applyProfile demo_profile idle_popup) =
     idle_popup
       \<lparr>activeProfiles := [str ''demo''],
        tab_page := blank_page
          \<lparr>cookie_writes := [str ''checkout/bootstrap/js=https%3A%2F%2Fcdn.example.com%2Fa.js'']\<rparr>,
        effects :=
          [TabsQuery, CookiesGetAll (str ''shop.example.com'') None,
           CookiesRemove (str ''https://shop.example.com/'') (str ''checkout/bootstrap/js''),
           CookiesRemove (str ''https://shop.example.com/'') (str ''legacy/bootstrap/js''),
           CookiesRemove (str ''https://example.com/'') (str ''/''),
           TabsQuery, InsertCSS 7, ExecuteScript 7, TabsReload 7 False]\<rparr>"
  using demo_cookie_array
  by (simp add: run_popup_Cons run_popup_Nil popup_step_def applyProfile_def
      clearAllOverrideCookies_def apply_resumed_def usable_tab_def clearAll_tab_def
      clearAll_cookies_def clearAll_removed_def apply_tab_def apply_script_def
      remove_url_def remove_call_def removeItem_def apply_in_page_def
      demo_profile_def demo_location_def demo_cookie_def legacy_cookie_def
      session_cookie_def slash_cookie_def demo_host_def idle_popup_def blank_page_def
      str_def Let_def upt_rec)

lemma demo_injected: "loadScript demo_key demo_url 1 blank_page = Inr injected_page"
  by (simp add: loadScript_def demo_scriptId injected_page_def blank_page_def)

lemma demo_disable_run:
  "run_popup demo_host (disableProfile demo_profile (idle_popup\<lparr>tab_page := injected_page\<rparr>)) =
     idle_popup
       \<lparr>tab_page := injected_page\<lparr>localStorage := [(DISABLE_KEY, str ''true'')]\<rparr>,
        effects :=
          [TabsQuery, CookiesGetAll (str ''shop.example.com'') (Some (str ''checkout/bootstrap/js'')),
           CookiesRemove (str ''https://shop.example.com/'') (str ''checkout/bootstrap/js''),
           ExecuteScript 7, TabsReload 7 True],
        disabling := [(0, \<lparr>keys_left = 0, op_tab = 7, op_profile = demo_profile,
                            op_keys = [str ''checkout/bootstrap/js'']\<rparr>)]\<rparr>"
  by (simp add: run_popup_Cons run_popup_Nil popup_step_def disableProfile_def disable_send_def
      disable_tab_def key_resolved_def disable_cookies_def disable_removed_def
      disable_script_def usable_tab_def cookie_key_def remove_url_def remove_call_def
      remove_script_tag_def disable_in_page_def injected_page_def
      demo_profile_def demo_entry_def demo_location_def demo_cookie_def legacy_cookie_def
      session_cookie_def slash_cookie_def demo_host_def idle_popup_def blank_page_def
      demo_id_def demo_key_def demo_url_def DISABLE_KEY_def
      str_def Let_def upt_rec)

subsection \<open>The id that \<open>disableProfile\<close> removes by\<close>

text \<open>
  The id that the function of \<open>disableProfile\<close> looks up is the prefix followed by the
  key itself, and an override key contains a slash; the id that \<open>loadScript\<close> gives the
  element is the prefix followed by Base64 text without its slashes. The two never agree.
\<close>

lemma prefix_no_slash: "47 \<notin> set SCRIPT_PREFIX"
  by (simp add: SCRIPT_PREFIX_def str_def)

lemma disable_id_mismatch:
  assumes "47 \<in> set key" and "scriptId key = Inr sid"
  shows "sid \<noteq> str ''override-script-'' @ key"
proof -
  from assms(2) have "47 \<notin> set sid"
    using prefix_no_slash by (auto simp: scriptId_def strip_b64_def split: sum.splits)
  with assms(1) show ?thesis by auto
qed

text \<open>
  Claim C1 says that \<open>disable(profile)\<close> removes the elements injected for the profile's
  keys, the id it removes by being the id the injector assigns. On the example the code
  does otherwise: the profile's only key is \<open>checkout/bootstrap/js\<close>, \<open>loadScript\<close> has
  injected its element under \<open>override-script-Y2hlY2tvdXQvYm9vdHN0cmFwL2pz\<close>, the function
  run in the page looks for \<open>override-script-checkout/bootstrap/js\<close>, finds nothing, and the
  element is still in the document when the whole \<open>disableProfile\<close> operation has run.
\<close>

theorem disable_leaves_injected_element:
  "map cookie_key (overrides demo_profile) = [demo_key] \<and>
   loadScript demo_key demo_url 1 blank_page = Inr injected_page \<and>
   getElementById demo_id (dom injected_page) = Some \<lparr>el_id = demo_id, el_src = demo_url\<rparr> \<and>
   demo_id \<noteq> str ''override-script-'' @ demo_key \<and>
   dom (disable_in_page [demo_key] injected_page) = dom injected_page \<and>
   getElementById demo_id
     (dom (tab_page (run_popup demo_host
        (disableProfile demo_profile (idle_popup\<lparr>tab_page := injected_page\<rparr>))))) =
     Some \<lparr>el_id = demo_id, el_src = demo_url\<rparr>"
proof -
  have k: "map cookie_key (overrides demo_profile) = [demo_key]"
    by (simp add: demo_profile_def demo_entry_def cookie_key_def demo_key_def str_def)
  have "47 \<in> set demo_key"
    by (simp add: demo_key_def str_def)
  then have ne: "demo_id \<noteq> str ''override-script-'' @ demo_key"
    using disable_id_mismatch demo_scriptId by blast
  then have same: "dom (disable_in_page [demo_key] injected_page) = dom injected_page"
    by (simp add: disable_in_page_def remove_script_tag_def injected_page_def blank_page_def)
  have there: "getElementById demo_id (dom injected_page) = Some \<lparr>el_id = demo_id, el_src = demo_url\<rparr>"
    by (simp add: injected_page_def)
  have after: "getElementById demo_id
      (dom (tab_page (run_popup demo_host
         (disableProfile demo_profile (idle_popup\<lparr>tab_page := injected_page\<rparr>))))) =
      Some \<lparr>el_id = demo_id, el_src = demo_url\<rparr>"
    by (simp add: demo_disable_run there)
  from k ne same there after demo_injected show ?thesis
    by blast
qed

subsection \<open>The busy flag\<close>

text \<open>
  Claim C3 says that while a lifecycle operation has callbacks outstanding, a new call
  is a no-op. On the example the code does otherwise. \<open>disableProfile\<close> returns with its
  tab query outstanding and \<open>isLoading\<close> already cleared by its \<open>finally\<close> block, and a
  \<open>deleteProfile\<close> that arrives then empties the stored collection. Likewise
  \<open>applyProfile\<close>, resumed after its \<open>await\<close>, clears \<open>isLoading\<close> with its second tab
  query outstanding, and a \<open>disableProfile\<close> that arrives then issues its own tab query.
\<close>

theorem busy_flag_released_early:
  "queue (disableProfile demo_profile idle_popup) = [Disable_tab demo_profile [demo_key]] \<and>
   \<not> isLoading (disableProfile demo_profile idle_popup) \<and>
   storage (disableProfile demo_profile idle_popup) = [demo_profile] \<and>
   storage (deleteProfile (str ''demo'') (disableProfile demo_profile idle_popup)) = [] \<and>
   effects (deleteProfile (str ''demo'') (disableProfile demo_profile idle_popup)) =
     [TabsQuery, StorageSet []] \<and>
   queue (apply_resumed demo_profile (idle_popup\<lparr>isLoading := True\<rparr>)) =
     [Apply_tab demo_profile [str ''checkout/bootstrap/js=https%3A%2F%2Fcdn.example.com%2Fa.js'']] \<and>
   \<not> isLoading (apply_resumed demo_profile (idle_popup\<lparr>isLoading := True\<rparr>)) \<and>
   effects (disableProfile demo_profile (apply_resumed demo_profile (idle_popup\<lparr>isLoading := True\<rparr>))) =
     [TabsQuery, TabsQuery]"
  using demo_cookie_array
  by (simp add: disableProfile_def deleteProfile_def apply_resumed_def idle_popup_def Let_def
      cookie_key_def demo_profile_def demo_entry_def demo_key_def str_def)

subsection \<open>The reload that ends \<open>applyProfile\<close>\<close>

text \<open>
  Claim C4 says that \<open>apply(profile)\<close> ends by reloading the tab with the cache-bypass
  flag set. On the example the calls of \<open>applyProfile\<close> come in the order the claim gives
  (the cookies with a slash in their name are removed, the script that clears the flag
  and writes the cookie is sent), but the last call is \<open>chrome.tabs.reload(7)\<close> without the
  flag, where \<open>disableProfile\<close> ends with \<open>chrome.tabs.reload(7, {bypassCache: true})\<close>.
\<close>

theorem apply_reloads_without_bypass:
  "effects (run_popup demo_host (applyProfile demo_profile idle_popup)) =
     [TabsQuery, CookiesGetAll (str ''shop.example.com'') None,
      CookiesRemove (str ''https://shop.example.com/'') (str ''checkout/bootstrap/js''),
      CookiesRemove (str ''https://shop.example.com/'') (str ''legacy/bootstrap/js''),
      CookiesRemove (str ''https://example.com/'') (str ''/''),
      TabsQuery, InsertCSS 7, ExecuteScript 7, TabsReload 7 False] \<and>
   last (effects (run_popup demo_host (applyProfile demo_profile idle_popup))) = TabsReload 7 False \<and>
   last (effects (run_popup demo_host
           (disableProfile demo_profile (idle_popup\<lparr>tab_page := injected_page\<rparr>)))) =
     TabsReload 7 True"
  by (simp add: demo_apply_run demo_disable_run)

subsection \<open>Collisions of the derived id\<close>

text \<open>
  Claim C6 says that the derived id is a reversible, hence injective, encoding of the
  key. The code drops \<open>+\<close> and \<open>/\<close> from the Base64 text, and the two valid override keys
  \<open>a/>\<close> and \<open>a/?\<close>, whose Base64 texts are \<open>YS8+\<close> and \<open>YS8/\<close>, get the same id
  \<open>override-script-YS8\<close>. With the element of the first in the document, \<open>loadScript\<close> for
  the second finds the id and loads nothing.
\<close>

theorem scriptId_collision:
  "str ''a/>'' \<noteq> str ''a/?'' \<and>
   isValidOverrideKey (str ''a/>'') \<and> isValidOverrideKey (str ''a/?'') \<and>
   scriptId (str ''a/>'') = Inr (str ''override-script-YS8'') \<and>
   scriptId (str ''a/?'') = Inr (str ''override-script-YS8'') \<and>
   loadScript (str ''a/?'') demo_url 1
       (blank_page\<lparr>dom := [\<lparr>el_id = str ''override-script-YS8'', el_src = demo_url\<rparr>]\<rparr>) =
     Inr (blank_page\<lparr>dom := [\<lparr>el_id = str ''override-script-YS8'', el_src = demo_url\<rparr>]\<rparr>)"
proof -
  have a: "scriptId (str ''a/>'') = Inr (str ''override-script-YS8'')"
    by (simp add: scriptId_def btoa_def str_def strip_b64_def b64_char_def b64_alphabet_def
        SCRIPT_PREFIX_def)
  have b: "scriptId (str ''a/?'') = Inr (str ''override-script-YS8'')"
    by (simp add: scriptId_def btoa_def str_def strip_b64_def b64_char_def b64_alphabet_def
        SCRIPT_PREFIX_def)
  have c: "str ''a/>'' \<noteq> str ''a/?''"
    by (simp add: str_def)
  have d: "isValidOverrideKey (str ''a/>'') \<and> isValidOverrideKey (str ''a/?'')"
    by (simp add: isValidOverrideKey_def str_def)
  from a b c d show ?thesis
    by (simp add: loadScript_def blank_page_def)
qed

subsection \<open>\<open>deleteProfile\<close> touches the storage only\<close>

text \<open>
  Claim C10. With no other callback outstanding, \<open>deleteProfile(name)\<close> and the callback
  of its storage write do nothing when the popup is busy, and otherwise write the saved
  collection without the named profile to the storage, take the profile out of the saved
  collection and the name out of the active set, and clear the error message. The only
  call on the host is that storage write: no cookie is removed, no script sent, no tab
  reloaded, and the page of the tab, cookies and injected elements included, is as it
  was.
\<close>

theorem deleteProfile_storage_only:
  assumes "queue st = []"
  shows "run_popup h (deleteProfile nm st) =
           (if isLoading st then st
            else st\<lparr>error_message := None,
                    savedProfiles := filter (\<lambda>p. profile_name p \<noteq> nm) (savedProfiles st),
                    activeProfiles := filter (\<lambda>n. n \<noteq> nm) (activeProfiles st),
                    storage := filter (\<lambda>p. profile_name p \<noteq> nm) (savedProfiles st),
                    effects := effects st @
                      [StorageSet (filter (\<lambda>p. profile_name p \<noteq> nm) (savedProfiles st))]\<rparr>) \<and>
         tab_page (run_popup h (deleteProfile nm st)) = tab_page st"
proof (cases "isLoading st")
  case True
  with assms show ?thesis
    by (simp add: deleteProfile_def run_popup_Nil)
next
  case False
  then have "st\<lparr>isLoading := False\<rparr> = st" by simp
  with False assms show ?thesis
    by (simp add: deleteProfile_def Let_def run_popup_Cons run_popup_Nil popup_step_def
        delete_stored_def)
qed

text \<open>
  The example: the profile is active and its element injected; after the deletion the
  element is still in the page.
\<close>

theorem deleteProfile_storage_only_witness:
  "queue (idle_popup\<lparr>activeProfiles := [str ''demo''], tab_page := injected_page\<rparr>) = [] \<and>
   run_popup demo_host
       (deleteProfile (str ''demo'')
          (idle_popup\<lparr>activeProfiles := [str ''demo''], tab_page := injected_page\<rparr>)) =
     idle_popup\<lparr>savedProfiles := [], storage := [], tab_page := injected_page,
                effects := [StorageSet []]\<rparr>"
  using deleteProfile_storage_only [of
      "idle_popup\<lparr>activeProfiles := [str ''demo''], tab_page := injected_page\<rparr>"
      demo_host "str ''demo''"]
  by (simp add: idle_popup_def demo_profile_def str_def)

subsection \<open>Which cookies the clearing step removes\<close>

lemma run_acks:
  assumes "1 \<le> k" and "k \<le> n"
    and "queue st = map (\<lambda>i. ClearAll_removed i n p) [k..<Suc n]"
  shows "run_popup h st = run_popup h (apply_resumed p (st\<lparr>queue := []\<rparr>))"
  using assms
proof (induction "n - k" arbitrary: k st)
  case 0
  then have "k = n" by simp
  with 0 have "queue st = [ClearAll_removed n n p]" by simp
  then show ?case
    by (simp add: run_popup_Cons popup_step_def clearAll_removed_def)
next
  case (Suc d)
  then have lt: "k < n" by simp
  then have "[k..<Suc n] = k # [Suc k..<Suc n]"
    by (simp add: upt_conv_Cons del: upt_Suc)
  with Suc.prems have q: "queue st =
      ClearAll_removed k n p # map (\<lambda>i. ClearAll_removed i n p) [Suc k..<Suc n]"
    by (simp del: upt_Suc)
  let ?st = "st\<lparr>queue := map (\<lambda>i. ClearAll_removed i n p) [Suc k..<Suc n]\<rparr>"
  have "run_popup h st = run_popup h ?st"
    using q lt by (simp add: run_popup_Cons popup_step_def clearAll_removed_def del: upt_Suc)
  also have "\<dots> = run_popup h (apply_resumed p (?st\<lparr>queue := []\<rparr>))"
    using Suc.hyps(2) lt by (intro Suc.hyps(1)) (simp_all del: upt_Suc)
  finally show ?case by simp
qed

lemma apply_resumed_issues:
  assumes "queue st = []"
  shows "\<exists>more. effects (run_popup h (apply_resumed p st)) = effects st @ more \<and>
           filter is_removal more = []"
proof (cases "cookie_array (overrides p)")
  case (Inl e)
  with assms show ?thesis
    by (simp add: apply_resumed_def run_popup_Nil)
next
  case (Inr cs)
  show ?thesis
  proof (cases "tabs_query h")
    case None
    with Inr assms show ?thesis
      by (simp add: apply_resumed_def run_popup_Cons run_popup_Nil popup_step_def apply_tab_def)
  next
    case (Some tb)
    show ?thesis
    proof (cases "tab_id tb")
      case None
      with Some Inr assms show ?thesis
        by (simp add: apply_resumed_def run_popup_Cons run_popup_Nil popup_step_def apply_tab_def)
    next
      case (Some i)
      with \<open>tabs_query h = Some tb\<close> Inr assms show ?thesis
        by (simp add: apply_resumed_def run_popup_Cons run_popup_Nil popup_step_def
            apply_tab_def apply_script_def)
    qed
  qed
qed

lemma remove_call_is_removal: "filter is_removal (map (remove_call loc) cs) = map (remove_call loc) cs"
  by (induction cs) (simp_all add: remove_call_def)

lemma clearAll_issues:
  assumes tab: "usable_tab (tabs_query h) = Some (i, loc)"
    and idle: "\<not> isLoading st" "queue st = []"
  shows "filter is_removal (issued st (run_popup h (applyProfile p st))) =
           map (remove_call loc)
             (filter (\<lambda>c. 47 \<in> set (cookie_name c)) (cookies_getAll h (loc_hostname loc) None))"
proof -
  let ?cs = "filter (\<lambda>c. 47 \<in> set (cookie_name c)) (cookies_getAll h (loc_hostname loc) None)"
  let ?st1 = "st\<lparr>isLoading := True, error_message := None,
                  effects := effects st @ [TabsQuery, CookiesGetAll (loc_hostname loc) None],
                  queue := []\<rparr>"
  have start: "run_popup h (applyProfile p st) =
      run_popup h (clearAll_cookies h loc p ?st1)"
    using tab idle
    by (simp add: applyProfile_def clearAllOverrideCookies_def run_popup_Cons popup_step_def
        clearAll_tab_def)
  show ?thesis
  proof (cases "?cs = []")
    case True
    then have "clearAll_cookies h loc p ?st1 = apply_resumed p ?st1"
      by (simp add: clearAll_cookies_def Let_def)
    moreover obtain more where
      "effects (run_popup h (apply_resumed p ?st1)) = effects ?st1 @ more"
      "filter is_removal more = []"
      using apply_resumed_issues [of ?st1 h p] by auto
    ultimately show ?thesis
      using start True by (simp add: issued_def)
  next
    case False
    let ?n = "length ?cs"
    let ?st2 = "?st1\<lparr>effects := effects ?st1 @ map (remove_call loc) ?cs,
                     queue := map (\<lambda>i. ClearAll_removed i ?n p) [1..<Suc ?n]\<rparr>"
    from False have n: "1 \<le> ?n" by (simp add: Suc_le_eq)
    have "clearAll_cookies h loc p ?st1 = ?st2"
      using False by (simp add: clearAll_cookies_def Let_def del: upt_Suc)
    moreover have "run_popup h ?st2 = run_popup h (apply_resumed p (?st2\<lparr>queue := []\<rparr>))"
      using n by (intro run_acks [where k = 1 and n = ?n]) (simp_all del: upt_Suc)
    moreover obtain more where
      "effects (run_popup h (apply_resumed p (?st2\<lparr>queue := []\<rparr>))) =
         effects (?st2\<lparr>queue := []\<rparr>) @ more"
      "filter is_removal more = []"
      using apply_resumed_issues [of "?st2\<lparr>queue := []\<rparr>" h p] by auto
    ultimately show ?thesis
      using start by (simp add: issued_def remove_call_is_removal)
  qed
qed


lemma remove_call_name: "remove_call loc c = remove_call loc c' \<Longrightarrow> cookie_name c = cookie_name c'"
  by (simp add: remove_call_def)

lemma demo_cookies:
  "cookies_getAll demo_host (loc_hostname demo_location) None =
     [demo_cookie, legacy_cookie, session_cookie, slash_cookie]"
  by (simp add: demo_host_def)

lemma demo_usable_tab: "usable_tab (tabs_query demo_host) = Some (7, demo_location)"
  by (simp add: demo_host_def usable_tab_def)

text \<open>
  Claim C5 says that \<open>clearAll()\<close> removes a cookie exactly when its name contains a
  slash and is longer than one code unit, so that a cookie named \<open>/\<close> stays. The filter
  of \<open>clearAllOverrideCookies\<close> is \<open>cookie.name.includes("/")\<close> alone: in the example the
  store holds a cookie whose name is the bare slash, of length 1, and the run of
  \<open>applyProfile\<close> calls \<open>chrome.cookies.remove\<close> for it.
\<close>

theorem clearAll_removes_bare_slash_cookie:
  "slash_cookie \<in> set (cookies_getAll demo_host (loc_hostname demo_location) None) \<and>
   cookie_name slash_cookie = str ''/'' \<and>
   \<not> 1 < length (cookie_name slash_cookie) \<and>
   remove_call demo_location slash_cookie \<in>
     set (effects (run_popup demo_host (applyProfile demo_profile idle_popup)))"
  by (simp add: demo_cookies demo_apply_run)
    (simp add: slash_cookie_def remove_call_def remove_url_def demo_location_def str_def)

text \<open>
  Claim C5 as amended. With an active tab that has an id and a URL, and the popup idle,
  the \<open>chrome.cookies.remove\<close> calls made in the run of \<open>applyProfile\<close>, whose first step
  is \<open>clearAllOverrideCookies\<close>, are exactly those for the cookies that
  \<open>chrome.cookies.getAll\<close> reports for the tab's hostname and whose name contains a slash,
  in that order: a reported cookie is removed if and only if its name contains \<open>/\<close>. So
  a cookie named \<open>/\<close> is removed, and no cookie without a slash in its name is.
\<close>

theorem clearAll_removes_iff_slash:
  assumes tab: "usable_tab (tabs_query h) = Some (i, loc)"
    and idle: "\<not> isLoading st" "queue st = []"
  shows "filter is_removal (issued st (run_popup h (applyProfile p st))) =
           map (remove_call loc)
             (filter (\<lambda>c. 47 \<in> set (cookie_name c)) (cookies_getAll h (loc_hostname loc) None)) \<and>
         (\<forall>c \<in> set (cookies_getAll h (loc_hostname loc) None).
            remove_call loc c \<in> set (issued st (run_popup h (applyProfile p st))) \<longleftrightarrow>
            47 \<in> set (cookie_name c))"
proof (intro conjI ballI)
  let ?out = "issued st (run_popup h (applyProfile p st))"
  let ?all = "cookies_getAll h (loc_hostname loc) None"
  show eq: "filter is_removal ?out =
      map (remove_call loc) (filter (\<lambda>c. 47 \<in> set (cookie_name c)) ?all)"
    using assms by (rule clearAll_issues)
  fix c
  assume c: "c \<in> set ?all"
  have "remove_call loc c \<in> set ?out \<longleftrightarrow> remove_call loc c \<in> set (filter is_removal ?out)"
    by (simp add: remove_call_def)
  also have "\<dots> \<longleftrightarrow> (\<exists>c' \<in> set ?all. 47 \<in> set (cookie_name c') \<and> remove_call loc c = remove_call loc c')"
    unfolding eq by (auto simp: image_iff)
  also have "\<dots> \<longleftrightarrow> 47 \<in> set (cookie_name c)"
    using c remove_call_name by metis
  finally show "remove_call loc c \<in> set ?out \<longleftrightarrow> 47 \<in> set (cookie_name c)" .
qed

theorem clearAll_removes_iff_slash_witness:
  "usable_tab (tabs_query demo_host) = Some (7, demo_location) \<and>
   \<not> isLoading idle_popup \<and> queue idle_popup = [] \<and>
   filter is_removal (issued idle_popup (run_popup demo_host (applyProfile demo_profile idle_popup))) =
     [remove_call demo_location demo_cookie, remove_call demo_location legacy_cookie,
      remove_call demo_location slash_cookie] \<and>
   remove_call demo_location slash_cookie \<in>
     set (issued idle_popup (run_popup demo_host (applyProfile demo_profile idle_popup))) \<and>
   remove_call demo_location session_cookie \<notin>
     set (issued idle_popup (run_popup demo_host (applyProfile demo_profile idle_popup)))"
proof -
  have idle: "\<not> isLoading idle_popup" "queue idle_popup = []"
    by (simp_all add: idle_popup_def)
  note inst = clearAll_removes_iff_slash [OF demo_usable_tab idle, of demo_profile]
  have names: "47 \<in> set (cookie_name demo_cookie)" "47 \<in> set (cookie_name legacy_cookie)"
    "47 \<notin> set (cookie_name session_cookie)" "47 \<in> set (cookie_name slash_cookie)"
    by (simp_all add: demo_cookie_def legacy_cookie_def session_cookie_def slash_cookie_def str_def)
  from inst names show ?thesis
    by (simp add: demo_cookies demo_usable_tab idle)
qed

section \<open>The cookie round trip\<close>

subsection \<open>\<open>decodeURIComponent\<close> undoes \<open>encodeURIComponent\<close>\<close>

lemma split3: "(cp::nat) div 4096 * 4096 + (cp div 64) mod 64 * 64 + cp mod 64 = cp"
proof -
  have "cp mod (64 * 64) = 64 * (cp div 64 mod 64) + cp mod 64"
    by (rule mod_mult2_eq)
  then have m: "cp mod 4096 = (cp div 64) mod 64 * 64 + cp mod 64"
    by (simp add: mult.commute)
  have "cp div 4096 * 4096 + cp mod 4096 = cp"
    by (rule div_mult_mod_eq)
  with m show ?thesis
    by (simp only: add.assoc)
qed

lemma split4:
  "(cp::nat) div 262144 * 262144 + (cp div 4096) mod 64 * 4096 + (cp div 64) mod 64 * 64 + cp mod 64 = cp"
proof -
  have "cp mod (4096 * 64) = 4096 * (cp div 4096 mod 64) + cp mod 4096"
    by (rule mod_mult2_eq)
  then have m: "cp mod 262144 = (cp div 4096) mod 64 * 4096 + cp mod 4096"
    by (simp add: mult.commute)
  have "cp mod (64 * 64) = 64 * (cp div 64 mod 64) + cp mod 64"
    by (rule mod_mult2_eq)
  then have m': "cp mod 4096 = (cp div 64) mod 64 * 64 + cp mod 64"
    by (simp add: mult.commute)
  have "cp div 262144 * 262144 + cp mod 262144 = cp"
    by (rule div_mult_mod_eq)
  with m m' show ?thesis
    by (simp only: add.assoc)
qed


lemma lead2: "128 \<le> cp \<Longrightarrow> cp < 2048 \<Longrightarrow> leading_ones (192 + cp div 64) = 2"
proof -
  assume "128 \<le> cp" "cp < 2048"
  then have "cp div 64 < 32" by simp
  then show ?thesis by (simp add: leading_ones_def)
qed

lemma dec2:
  "128 \<le> cp \<Longrightarrow> cp < 2048 \<Longrightarrow> utf8_decode [192 + cp div 64, 128 + cp mod 64] = Some cp"
  by (simp add: continuation_def Let_def)

lemma lead3: "2048 \<le> cp \<Longrightarrow> cp < 65536 \<Longrightarrow> leading_ones (224 + cp div 4096) = 3"
proof -
  assume "2048 \<le> cp" "cp < 65536"
  then have "cp div 4096 < 16" by simp
  then show ?thesis by (simp add: leading_ones_def)
qed

lemma dec3:
  assumes "2048 \<le> cp" "\<not> (55296 \<le> cp \<and> cp \<le> 57343)"
  shows "utf8_decode [224 + cp div 4096, 128 + (cp div 64) mod 64, 128 + cp mod 64] = Some cp"
  using assms split3 [of cp] by (simp add: continuation_def Let_def)

lemma lead4: "65536 \<le> cp \<Longrightarrow> cp < 1114112 \<Longrightarrow> leading_ones (240 + cp div 262144) = 4"
proof -
  assume "65536 \<le> cp" "cp < 1114112"
  then have "cp div 262144 < 8" by simp
  then show ?thesis by (simp add: leading_ones_def)
qed

lemma dec4:
  assumes "65536 \<le> cp" "cp < 1114112"
  shows "utf8_decode [240 + cp div 262144, 128 + (cp div 4096) mod 64, 128 + (cp div 64) mod 64,
            128 + cp mod 64] = Some cp"
  using assms split4 [of cp] by (simp add: continuation_def Let_def)


lemma utf8_bytes: "cp < 1114112 \<Longrightarrow> b \<in> set (utf8 cp) \<Longrightarrow> b < 256"
  by (auto simp: utf8_def split: if_splits)

lemma hex_value_digit: "d < 16 \<Longrightarrow> hex_value (hex_digit d) = Some d"
  by (simp add: hex_value_def hex_digit_def)

lemma parse_hex_pct:
  "b < 256 \<Longrightarrow> parse_hex_octet (hex_digit (b div 16)) (hex_digit (b mod 16)) = Some b"
  by (simp add: parse_hex_octet_def hex_value_digit less_mult_imp_div_less)

lemma take_octets_pct:
  "\<forall>b \<in> set bs. b < 256 \<Longrightarrow>
   take_octets (length bs) (concat (map pct bs) @ rest) = Some (bs, rest)"
  by (induction bs) (simp_all add: pct_def parse_hex_pct)

lemma decode_single:
  "b < 128 \<Longrightarrow> decodeURIComponent (pct b @ rest) = prepend [b] (decodeURIComponent rest)"
  by (simp add: pct_def parse_hex_pct leading_ones_def)

lemma decode_sequence:
  assumes "b < 256" and "\<forall>x \<in> set bs. x < 256"
    and "leading_ones b = Suc (length bs)" and "bs \<noteq> []" and "length bs < 4"
    and "utf8_decode (b # bs) = Some cp"
  shows "decodeURIComponent (concat (map pct (b # bs)) @ rest) =
           prepend (utf16 cp) (decodeURIComponent rest)"
  using assms take_octets_pct [of bs rest]
  by (simp add: pct_def parse_hex_pct Let_def)

lemma decode_escape:
  assumes "cp < 1114112" and "\<not> (55296 \<le> cp \<and> cp \<le> 57343)"
  shows "decodeURIComponent (escape cp @ rest) = prepend (utf16 cp) (decodeURIComponent rest)"
proof -
  consider "cp < 128" | "128 \<le> cp" "cp < 2048" | "2048 \<le> cp" "cp < 65536" | "65536 \<le> cp"
    by linarith
  then show ?thesis
  proof cases
    case 1
    then show ?thesis
      by (simp add: escape_def utf8_def utf16_def decode_single)
  next
    case 2
    define b0 where "b0 = 192 + cp div 64"
    define b1 where "b1 = 128 + cp mod 64"
    have u: "utf8 cp = [b0, b1]"
      using 2 by (simp add: utf8_def b0_def b1_def)
    have "b0 < 256" "\<forall>x \<in> set [b1]. x < 256"
      using utf8_bytes [of cp] assms(1) u by simp_all
    moreover have "leading_ones b0 = Suc (length [b1])"
      using lead2 2 by (simp add: b0_def)
    moreover have "utf8_decode (b0 # [b1]) = Some cp"
      using dec2 2 by (simp add: b0_def b1_def)
    ultimately have "decodeURIComponent (concat (map pct (b0 # [b1])) @ rest) =
        prepend (utf16 cp) (decodeURIComponent rest)"
      by (intro decode_sequence) simp_all
    then show ?thesis
      by (simp add: escape_def u)
  next
    case 3
    define b0 where "b0 = 224 + cp div 4096"
    define b1 where "b1 = 128 + (cp div 64) mod 64"
    define b2 where "b2 = 128 + cp mod 64"
    have u: "utf8 cp = [b0, b1, b2]"
      using 3 by (simp add: utf8_def b0_def b1_def b2_def)
    have "b0 < 256" "\<forall>x \<in> set [b1, b2]. x < 256"
      using utf8_bytes [of cp] assms(1) u by simp_all
    moreover have "leading_ones b0 = Suc (length [b1, b2])"
      using lead3 3 by (simp add: b0_def)
    moreover have "utf8_decode (b0 # [b1, b2]) = Some cp"
      using dec3 3 assms(2) by (simp add: b0_def b1_def b2_def)
    ultimately have "decodeURIComponent (concat (map pct (b0 # [b1, b2])) @ rest) =
        prepend (utf16 cp) (decodeURIComponent rest)"
      by (intro decode_sequence) simp_all
    then show ?thesis
      by (simp add: escape_def u)
  next
    case 4
    define b0 where "b0 = 240 + cp div 262144"
    define b1 where "b1 = 128 + (cp div 4096) mod 64"
    define b2 where "b2 = 128 + (cp div 64) mod 64"
    define b3 where "b3 = 128 + cp mod 64"
    have u: "utf8 cp = [b0, b1, b2, b3]"
      using 4 by (simp add: utf8_def b0_def b1_def b2_def b3_def)
    have "b0 < 256" "\<forall>x \<in> set [b1, b2, b3]. x < 256"
      using utf8_bytes [of cp] assms(1) u by simp_all
    moreover have "leading_ones b0 = Suc (length [b1, b2, b3])"
      using lead4 4 assms(1) by (simp add: b0_def)
    moreover have "utf8_decode (b0 # [b1, b2, b3]) = Some cp"
      using dec4 4 assms(1) by (simp add: b0_def b1_def b2_def b3_def)
    ultimately have "decodeURIComponent (concat (map pct (b0 # [b1, b2, b3])) @ rest) =
        prepend (utf16 cp) (decodeURIComponent rest)"
      by (intro decode_sequence) simp_all
    then show ?thesis
      by (simp add: escape_def u)
  qed
qed

lemma utf16_pair:
  assumes "is_lead c" and "is_trail d"
  shows "utf16 ((c - 55296) * 1024 + (d - 56320) + 65536) = [c, d]"
    and "(c - 55296) * 1024 + (d - 56320) + 65536 < 1114112"
    and "\<not> (55296 \<le> (c - 55296) * 1024 + (d - 56320) + 65536 \<and>
            (c - 55296) * 1024 + (d - 56320) + 65536 \<le> 57343)"
proof -
  define x where "x = c - 55296"
  define y where "y = d - 56320"
  have x: "x < 1024" "c = 55296 + x" and y: "y < 1024" "d = 56320 + y"
    using assms by (auto simp add: is_lead_def is_trail_def x_def y_def)
  have "(x * 1024 + y) div 1024 = x" "(x * 1024 + y) mod 1024 = y"
    using y(1) by simp_all
  then show "utf16 ((c - 55296) * 1024 + (d - 56320) + 65536) = [c, d]"
    using x y by (simp add: utf16_def)
  show "(c - 55296) * 1024 + (d - 56320) + 65536 < 1114112"
    using x y by simp
  show "\<not> (55296 \<le> (c - 55296) * 1024 + (d - 56320) + 65536 \<and>
            (c - 55296) * 1024 + (d - 56320) + 65536 \<le> 57343)"
    by simp
qed

lemma prepend_Inr: "prepend xs r = Inr v \<longleftrightarrow> (\<exists>w. r = Inr w \<and> v = xs @ w)"
  by (auto simp: prepend_def split: sum.splits)

lemma decode_append_plain:
  "decodeURIComponent (c # rest) = prepend [c] (decodeURIComponent rest)" if "c \<noteq> 37"
  using that by simp

lemma unescaped_not_percent: "unescaped c \<Longrightarrow> c \<noteq> 37"
  by (auto simp: unescaped_def)

lemma codec_round_trip:
  "\<forall>c \<in> set u. c < 65536 \<Longrightarrow> encodeURIComponent u = Inr v \<Longrightarrow> decodeURIComponent v = Inr u"
proof (induction u arbitrary: v rule: encodeURIComponent.induct)
  case 1
  then show ?case by simp
next
  case (2 c rest)
  show ?case
  proof (cases "unescaped c")
    case True
    with "2.prems" obtain w where w: "encodeURIComponent rest = Inr w" "v = c # w"
      by (auto simp: prepend_Inr)
    with "2.IH"(1) "2.prems"(1) True have "decodeURIComponent w = Inr rest" by simp
    with w True show ?thesis
      using unescaped_not_percent [of c] by (simp add: prepend_def)
  next
    case False
    note plain = False
    show ?thesis
    proof (cases "is_lead c")
      case True
      with plain "2.prems" obtain d rest' w where
        r: "rest = d # rest'" and d: "is_trail d"
        and w: "encodeURIComponent rest' = Inr w"
        and v: "v = escape ((c - 55296) * 1024 + (d - 56320) + 65536) @ w"
        by (auto simp: prepend_Inr split: list.splits if_splits)
      from "2.IH"(2) [OF plain True r d] "2.prems"(1) r w
      have "decodeURIComponent w = Inr rest'" by simp
      then show ?thesis
        using v r utf16_pair [OF True d]
        by (simp add: decode_escape prepend_def)
    next
      case False
      with plain "2.prems" obtain w where nt: "\<not> is_trail c"
        and w: "encodeURIComponent rest = Inr w" and v: "v = escape c @ w"
        by (auto simp: prepend_Inr split: if_splits)
      from "2.IH"(3) [OF plain False nt] "2.prems"(1) w
      have "decodeURIComponent w = Inr rest" by simp
      moreover have "c < 1114112" "\<not> (55296 \<le> c \<and> c \<le> 57343)" "utf16 c = [c]"
        using "2.prems"(1) False nt by (auto simp: is_lead_def is_trail_def utf16_def)
      ultimately show ?thesis
        using v by (simp add: decode_escape prepend_def)
    qed
  qed
qed

subsection \<open>What \<open>encodeURIComponent\<close> writes\<close>

lemma hex_digit_unescaped: "d < 16 \<Longrightarrow> unescaped (hex_digit d)"
  by (auto simp: hex_digit_def unescaped_def)

lemma pct_chars: "b < 256 \<Longrightarrow> c \<in> set (pct b) \<Longrightarrow> unescaped c \<or> c = 37"
  using hex_digit_unescaped [of "b div 16"] hex_digit_unescaped [of "b mod 16"]
  by (auto simp: pct_def less_mult_imp_div_less)

lemma escape_chars:
  "cp < 1114112 \<Longrightarrow> c \<in> set (escape cp) \<Longrightarrow> unescaped c \<or> c = 37"
  using utf8_bytes pct_chars by (fastforce simp: escape_def)

lemma encode_chars:
  "\<forall>c \<in> set u. c < 65536 \<Longrightarrow> encodeURIComponent u = Inr v \<Longrightarrow>
   \<forall>c \<in> set v. unescaped c \<or> c = 37"
proof (induction u arbitrary: v rule: encodeURIComponent.induct)
  case 1
  then show ?case by simp
next
  case (2 c rest)
  show ?case
  proof (cases "unescaped c")
    case True
    with "2.prems" obtain w where w: "encodeURIComponent rest = Inr w" "v = c # w"
      by (auto simp: prepend_Inr)
    with "2.IH"(1) "2.prems"(1) True show ?thesis by simp
  next
    case False
    note plain = False
    show ?thesis
    proof (cases "is_lead c")
      case True
      with plain "2.prems" obtain d rest' w where
        r: "rest = d # rest'" and d: "is_trail d"
        and w: "encodeURIComponent rest' = Inr w"
        and v: "v = escape ((c - 55296) * 1024 + (d - 56320) + 65536) @ w"
        by (auto simp: prepend_Inr split: list.splits if_splits)
      from "2.IH"(2) [OF plain True r d] "2.prems"(1) r w
      have "\<forall>c \<in> set w. unescaped c \<or> c = 37" by simp
      moreover have "\<forall>x \<in> set (escape ((c - 55296) * 1024 + (d - 56320) + 65536)).
          unescaped x \<or> x = 37"
        using escape_chars utf16_pair(2) [OF True d] by blast
      ultimately show ?thesis
        unfolding v by (metis Un_iff set_append)
    next
      case False
      with plain "2.prems" obtain w where nt: "\<not> is_trail c"
        and w: "encodeURIComponent rest = Inr w" and v: "v = escape c @ w"
        by (auto simp: prepend_Inr split: if_splits)
      from "2.IH"(3) [OF plain False nt] "2.prems"(1) w
      have "\<forall>c \<in> set w. unescaped c \<or> c = 37" by simp
      moreover have "c < 1114112" using "2.prems"(1) by simp
      then have "\<forall>x \<in> set (escape c). unescaped x \<or> x = 37"
        using escape_chars by blast
      ultimately show ?thesis
        unfolding v by (metis Un_iff set_append)
    qed
  qed
qed

lemma plain_char:
  assumes "unescaped c \<or> c = 37"
  shows "c \<noteq> 59" and "c \<noteq> 61" and "\<not> is_ws c"
  using assms by (auto simp: unescaped_def is_ws_def)

lemma split_none: "sep \<notin> set s \<Longrightarrow> split sep s = [s]"
  by (induction s) auto

lemma indexOf_first: "c \<notin> set xs \<Longrightarrow> indexOf c (xs @ c # ys) = Some (length xs)"
  by (induction xs) auto

lemma trim_id:
  assumes "s \<noteq> []" and "\<not> is_ws (hd s)" and "\<not> is_ws (last s)"
  shows "trim s = s"
proof -
  from assms have "dropWhile is_ws s = s"
    by (cases s) simp_all
  moreover from assms have "dropWhile is_ws (rev s) = rev s"
    by (cases "rev s") (simp_all add: last_rev [symmetric] hd_rev)
  ultimately show ?thesis
    by (simp add: trim_def)
qed

subsection \<open>Reading back the cookie of an entry\<close>

lemma parse_own_cookie:
  assumes key: "key \<noteq> []" "\<not> is_ws (hd key)" "\<not> is_ws (last key)"
      "61 \<notin> set key" "59 \<notin> set key"
    and v: "\<forall>c \<in> set v. unescaped c \<or> c = 37"
    and dec: "decodeURIComponent v = Inr u"
  shows "parseCookies (key @ 61 # v) = [(key, u)]"
proof -
  let ?s = "key @ 61 # v"
  have "\<not> is_ws (last ?s)"
  proof (cases "v = []")
    case True
    then show ?thesis by (simp add: is_ws_def)
  next
    case False
    then have "last v \<in> set v" by simp
    with v have "\<not> is_ws (last v)" using plain_char(3) by blast
    with False show ?thesis by simp
  qed
  moreover have "\<not> is_ws (hd ?s)"
    using key(1,2) by simp
  ultimately have trim_s: "trim ?s = ?s"
    by (intro trim_id) simp_all
  have "59 \<notin> set v"
    using v plain_char(1) by blast
  with key(5) have "split 59 ?s = [?s]"
    by (intro split_none) simp
  moreover have "parse_segment [] ?s = [(key, u)]"
    using trim_s indexOf_first [OF key(4), of v] trim_id [OF key(1,2,3)] key(1) dec
    by (simp add: parse_segment_def Let_def)
  ultimately show ?thesis
    using trim_s by (simp add: parseCookies_def)
qed

text \<open>
  Two entries: one with plain names, and one whose application name holds an equals
  sign.
\<close>

definition plain_entry :: OverrideEntry where
  "plain_entry =
     \<lparr>appName = str ''checkout'', featureKey = str ''bootstrap'',
      entry_url = str ''https://cdn.example.com/a.js''\<rparr>"

definition equals_entry :: OverrideEntry where
  "equals_entry =
     \<lparr>appName = str ''a=b'', featureKey = str ''c'',
      entry_url = str ''https://cdn.example.com/a.js''\<rparr>"

lemmas codec_defs =
  cookie_key_def cookie_string_def prepend_def str_def unescaped_def is_lead_def is_trail_def
  escape_def utf8_def pct_def hex_digit_def

lemma plain_cookie_string:
  "cookie_string plain_entry = Inr (str ''checkout/bootstrap=https%3A%2F%2Fcdn.example.com%2Fa.js'')"
  by (simp add: plain_entry_def codec_defs)

text \<open>
  Claim C2 says that for every entry whose \<open>appName\<close> and \<open>featureKey\<close> are non-empty and
  free of \<open>/\<close>, reading back the cookie written for the entry gives the pair of the key
  and the URL. The entry with \<open>appName = "a=b"\<close> and \<open>featureKey = "c"\<close> meets the
  conditions; its cookie string is \<open>a=b/c=https%3A%2F%2Fcdn.example.com%2Fa.js\<close>, and
  \<open>parseCookies\<close>, which cuts at the first \<open>=\<close>, reads the key \<open>a\<close> with the value
  \<open>b/c=https://cdn.example.com/a.js\<close>.
\<close>

theorem round_trip_breaks_on_equals_sign:
  "appName equals_entry \<noteq> [] \<and> featureKey equals_entry \<noteq> [] \<and>
   47 \<notin> set (appName equals_entry) \<and> 47 \<notin> set (featureKey equals_entry) \<and>
   cookie_key equals_entry = str ''a=b/c'' \<and>
   cookie_string equals_entry = Inr (str ''a=b/c=https%3A%2F%2Fcdn.example.com%2Fa.js'') \<and>
   parseCookies (str ''a=b/c=https%3A%2F%2Fcdn.example.com%2Fa.js'') =
     [(str ''a'', str ''b/c=https://cdn.example.com/a.js'')] \<and>
   parseCookies (str ''a=b/c=https%3A%2F%2Fcdn.example.com%2Fa.js'') \<noteq>
     [(cookie_key equals_entry, entry_url equals_entry)]"
proof -
  have a: "appName equals_entry \<noteq> [] \<and> featureKey equals_entry \<noteq> [] \<and>
      47 \<notin> set (appName equals_entry) \<and> 47 \<notin> set (featureKey equals_entry)"
    by (simp add: equals_entry_def str_def)
  have b: "cookie_key equals_entry = str ''a=b/c''"
    by (simp add: equals_entry_def cookie_key_def str_def)
  have c: "cookie_string equals_entry = Inr (str ''a=b/c=https%3A%2F%2Fcdn.example.com%2Fa.js'')"
    by (simp add: equals_entry_def codec_defs)
  have d: "parseCookies (str ''a=b/c=https%3A%2F%2Fcdn.example.com%2Fa.js'') =
      [(str ''a'', str ''b/c=https://cdn.example.com/a.js'')]"
    by (simp add: parseCookies_def parse_segment_def trim_def is_ws_def str_def Let_def
        prepend_def parse_hex_octet_def hex_value_def leading_ones_def)
  have "str ''a'' \<noteq> str ''a=b/c''"
    by (simp add: str_def)
  with a b c d show ?thesis by simp
qed

text \<open>
  Claim C2 as amended. Take an entry whose \<open>appName\<close> and \<open>featureKey\<close> are non-empty and
  contain none of \<open>/\<close>, \<open>=\<close> and \<open>;\<close>, whose \<open>appName\<close> does not begin and whose
  \<open>featureKey\<close> does not end with white space, and whose URL is a string of UTF-16 code
  units that \<open>encodeURIComponent\<close> accepts (it has no unpaired surrogate), so that the
  cookie string \<open>s\<close> of the entry exists. Then \<open>parseCookies\<close>, applied to a cookie string
  that holds just \<open>s\<close>, gives exactly one pair: the key \<open>appName/featureKey\<close> and the URL.
\<close>

theorem cookie_round_trip:
  assumes "appName e \<noteq> []" and "featureKey e \<noteq> []"
    and "47 \<notin> set (appName e)" and "47 \<notin> set (featureKey e)"
    and "61 \<notin> set (appName e)" and "61 \<notin> set (featureKey e)"
    and "59 \<notin> set (appName e)" and "59 \<notin> set (featureKey e)"
    and "\<not> is_ws (hd (appName e))" and "\<not> is_ws (last (featureKey e))"
    and "\<forall>c \<in> set (entry_url e). c < 65536"
    and "cookie_string e = Inr s"
  shows "parseCookies s = [(cookie_key e, entry_url e)]"
proof -
  from assms(12) obtain v where enc: "encodeURIComponent (entry_url e) = Inr v"
    and s: "s = cookie_key e @ 61 # v"
    by (auto simp: cookie_string_def prepend_Inr)
  have "cookie_key e \<noteq> []" "\<not> is_ws (hd (cookie_key e))" "\<not> is_ws (last (cookie_key e))"
    "61 \<notin> set (cookie_key e)" "59 \<notin> set (cookie_key e)"
    using assms(1,2,5-10) by (simp_all add: cookie_key_def)
  moreover have "\<forall>c \<in> set v. unescaped c \<or> c = 37"
    using encode_chars [OF assms(11) enc] .
  moreover have "decodeURIComponent v = Inr (entry_url e)"
    using codec_round_trip [OF assms(11) enc] .
  ultimately show ?thesis
    unfolding s by (rule parse_own_cookie)
qed

theorem cookie_round_trip_witness:
  "appName plain_entry \<noteq> [] \<and> featureKey plain_entry \<noteq> [] \<and>
   47 \<notin> set (appName plain_entry) \<and> 47 \<notin> set (featureKey plain_entry) \<and>
   61 \<notin> set (appName plain_entry) \<and> 61 \<notin> set (featureKey plain_entry) \<and>
   59 \<notin> set (appName plain_entry) \<and> 59 \<notin> set (featureKey plain_entry) \<and>
   \<not> is_ws (hd (appName plain_entry)) \<and> \<not> is_ws (last (featureKey plain_entry)) \<and>
   cookie_string plain_entry =
     Inr (str ''checkout/bootstrap=https%3A%2F%2Fcdn.example.com%2Fa.js'') \<and>
   parseCookies (str ''checkout/bootstrap=https%3A%2F%2Fcdn.example.com%2Fa.js'') =
     [(str ''checkout/bootstrap'', str ''https://cdn.example.com/a.js'')]"
proof -
  have h: "appName plain_entry \<noteq> []" "featureKey plain_entry \<noteq> []"
    "47 \<notin> set (appName plain_entry)" "47 \<notin> set (featureKey plain_entry)"
    "61 \<notin> set (appName plain_entry)" "61 \<notin> set (featureKey plain_entry)"
    "59 \<notin> set (appName plain_entry)" "59 \<notin> set (featureKey plain_entry)"
    "\<not> is_ws (hd (appName plain_entry))" "\<not> is_ws (last (featureKey plain_entry))"
    "\<forall>c \<in> set (entry_url plain_entry). c < 65536"
    by (simp_all add: plain_entry_def str_def is_ws_def)
  have k: "cookie_key plain_entry = str ''checkout/bootstrap''"
    "entry_url plain_entry = str ''https://cdn.example.com/a.js''"
    by (simp_all add: plain_entry_def cookie_key_def str_def)
  from cookie_round_trip [OF h plain_cookie_string] h plain_cookie_string k
  show ?thesis by simp
qed

section \<open>Further properties\<close>

text \<open>
  Extra X1. While \<open>isLoading\<close> is set, a call of \<open>applyProfile\<close>, \<open>disableProfile\<close> or
  \<open>deleteProfile\<close> returns at once and changes nothing: no state update, no call on the
  host, no callback registered.
\<close>

theorem guard_rejects_while_busy:
  "isLoading st \<Longrightarrow>
   applyProfile p st = st \<and> disableProfile p st = st \<and> deleteProfile nm st = st"
  by (simp add: applyProfile_def disableProfile_def deleteProfile_def)

theorem guard_rejects_while_busy_witness:
  "isLoading (idle_popup\<lparr>isLoading := True\<rparr>) \<and>
   applyProfile demo_profile (idle_popup\<lparr>isLoading := True\<rparr>) = idle_popup\<lparr>isLoading := True\<rparr> \<and>
   disableProfile demo_profile (idle_popup\<lparr>isLoading := True\<rparr>) = idle_popup\<lparr>isLoading := True\<rparr> \<and>
   deleteProfile (str ''demo'') (idle_popup\<lparr>isLoading := True\<rparr>) = idle_popup\<lparr>isLoading := True\<rparr>"
  using guard_rejects_while_busy [of "idle_popup\<lparr>isLoading := True\<rparr>" demo_profile "str ''demo''"]
  by simp

lemma usable_tab_Some:
  "usable_tab (tabs_query h) = Some (i, loc) \<Longrightarrow>
   \<exists>tb. tabs_query h = Some tb \<and> tab_id tb = Some i"
  by (auto simp: usable_tab_def split: option.splits if_splits)

text \<open>
  Extra X2. With an active tab that has an id and a URL, a script that runs, cookie
  strings that can be built, and the popup idle, the whole run of \<open>applyProfile\<close> makes
  these calls in this order: the tab query, the enumeration of the hostname's cookies,
  one removal per reported cookie with a slash in its name, the second tab query, the
  style sheet, the script (which clears the disable flag and assigns the cookie
  strings), and \<open>chrome.tabs.reload\<close> without the cache-bypass flag. At the end the
  profile's name is in the active set and \<open>isLoading\<close> is clear.
\<close>

theorem applyProfile_run:
  assumes tab: "usable_tab (tabs_query h) = Some (i, loc)"
    and runs: "script_runs h"
    and cs: "cookie_array (overrides p) = Inr cs"
    and idle: "\<not> isLoading st" "queue st = []"
  shows "run_popup h (applyProfile p st) =
           st\<lparr>error_message := None,
              activeProfiles :=
                (if profile_name p \<in> set (activeProfiles st) then activeProfiles st
                 else activeProfiles st @ [profile_name p]),
              tab_page := apply_in_page cs (tab_page st),
              effects := effects st @
                [TabsQuery, CookiesGetAll (loc_hostname loc) None] @
                map (remove_call loc)
                  (filter (\<lambda>c. 47 \<in> set (cookie_name c)) (cookies_getAll h (loc_hostname loc) None)) @
                [TabsQuery, InsertCSS i, ExecuteScript i, TabsReload i False]\<rparr>"
proof -
  let ?cs = "filter (\<lambda>c. 47 \<in> set (cookie_name c)) (cookies_getAll h (loc_hostname loc) None)"
  let ?st1 = "st\<lparr>isLoading := True, error_message := None,
                  effects := effects st @ [TabsQuery, CookiesGetAll (loc_hostname loc) None],
                  queue := []\<rparr>"
  from tab obtain tb where tb: "tabs_query h = Some tb" "tab_id tb = Some i"
    using usable_tab_Some by blast
  have tail: "run_popup h (apply_resumed p s) =
      s\<lparr>isLoading := False,
        activeProfiles :=
          (if profile_name p \<in> set (activeProfiles s) then activeProfiles s
           else activeProfiles s @ [profile_name p]),
        tab_page := apply_in_page cs (tab_page s),
        effects := effects s @ [TabsQuery, InsertCSS i, ExecuteScript i, TabsReload i False]\<rparr>"
    if "queue s = []" for s
    using that tb runs cs
    by (simp add: apply_resumed_def run_popup_Cons run_popup_Nil popup_step_def apply_tab_def
        apply_script_def)
  have start: "run_popup h (applyProfile p st) = run_popup h (clearAll_cookies h loc p ?st1)"
    using tab idle
    by (simp add: applyProfile_def clearAllOverrideCookies_def run_popup_Cons popup_step_def
        clearAll_tab_def)
  have fin: "st\<lparr>isLoading := False\<rparr> = st"
    using idle by simp
  show ?thesis
  proof (cases "?cs = []")
    case True
    then have "clearAll_cookies h loc p ?st1 = apply_resumed p ?st1"
      by (simp add: clearAll_cookies_def Let_def)
    with start True tail [of ?st1] idle show ?thesis
      by simp
  next
    case False
    let ?n = "length ?cs"
    let ?st2 = "?st1\<lparr>effects := effects ?st1 @ map (remove_call loc) ?cs,
                     queue := map (\<lambda>i. ClearAll_removed i ?n p) [1..<Suc ?n]\<rparr>"
    from False have n: "1 \<le> ?n" by (simp add: Suc_le_eq)
    have "clearAll_cookies h loc p ?st1 = ?st2"
      using False by (simp add: clearAll_cookies_def Let_def del: upt_Suc)
    moreover have "run_popup h ?st2 = run_popup h (apply_resumed p (?st2\<lparr>queue := []\<rparr>))"
      using n by (intro run_acks [where k = 1 and n = ?n]) (simp_all del: upt_Suc)
    ultimately show ?thesis
      using start tail [of "?st2\<lparr>queue := []\<rparr>"] idle by simp
  qed
qed

theorem applyProfile_run_witness:
  "usable_tab (tabs_query demo_host) = Some (7, demo_location) \<and> script_runs demo_host \<and>
   cookie_array (overrides demo_profile) =
     Inr [str ''checkout/bootstrap/js=https%3A%2F%2Fcdn.example.com%2Fa.js''] \<and>
   \<not> isLoading idle_popup \<and> queue idle_popup = [] \<and>
   run_popup demo_host (applyProfile demo_profile idle_popup) =
     idle_popup
       \<lparr>activeProfiles := [profile_name demo_profile],
        tab_page := apply_in_page
          [str ''checkout/bootstrap/js=https%3A%2F%2Fcdn.example.com%2Fa.js''] blank_page,
        effects :=
          [TabsQuery, CookiesGetAll (loc_hostname demo_location) None,
           remove_call demo_location demo_cookie, remove_call demo_location legacy_cookie,
           remove_call demo_location slash_cookie,
           TabsQuery, InsertCSS 7, ExecuteScript 7, TabsReload 7 False]\<rparr>"
proof -
  have idle: "\<not> isLoading idle_popup" "queue idle_popup = []"
    by (simp_all add: idle_popup_def)
  have runs: "script_runs demo_host"
    by (simp add: demo_host_def)
  have names: "47 \<in> set (cookie_name demo_cookie)" "47 \<in> set (cookie_name legacy_cookie)"
    "47 \<notin> set (cookie_name session_cookie)" "47 \<in> set (cookie_name slash_cookie)"
    by (simp_all add: demo_cookie_def legacy_cookie_def session_cookie_def slash_cookie_def str_def)
  have st: "error_message idle_popup = None" "activeProfiles idle_popup = []"
    "tab_page idle_popup = blank_page" "effects idle_popup = []"
    by (simp_all add: idle_popup_def)
  from applyProfile_run [OF demo_usable_tab runs demo_cookie_array idle] names st
  show ?thesis
    by (simp add: demo_usable_tab runs demo_cookie_array idle demo_cookies)
qed

text \<open>
  Extra X3. For every override entry, the key contains a slash, and the id under which
  \<open>loadScript\<close> injects the element of the key, when \<open>btoa\<close> accepts the key, differs
  from the id \<open>override-script-\<close> followed by the key, by which the function of
  \<open>disableProfile\<close> looks the element up.
\<close>

theorem disable_id_never_matches:
  "47 \<in> set (cookie_key entry) \<and>
   (scriptId (cookie_key entry) = Inr sid \<longrightarrow>
      sid \<noteq> str ''override-script-'' @ cookie_key entry)"
proof -
  have "47 \<in> set (cookie_key entry)"
    by (simp add: cookie_key_def)
  then show ?thesis
    using disable_id_mismatch by blast
qed

theorem disable_id_never_matches_witness:
  "47 \<in> set (cookie_key demo_entry) \<and> scriptId (cookie_key demo_entry) = Inr demo_id \<and>
   demo_id \<noteq> str ''override-script-'' @ cookie_key demo_entry"
proof -
  have "cookie_key demo_entry = demo_key"
    by (simp add: demo_entry_def cookie_key_def demo_key_def str_def)
  with disable_id_never_matches [of demo_entry demo_id] demo_scriptId show ?thesis
    by simp
qed

text \<open>
  Extra X4. On every string of UTF-16 code units that \<open>encodeURIComponent\<close> accepts,
  \<open>decodeURIComponent\<close> returns the string from its encoding. The example has an
  ASCII letter, a two-octet and a three-octet character, a surrogate pair and a space.
\<close>

theorem decode_undoes_encode:
  "\<forall>c \<in> set u. c < 65536 \<Longrightarrow> encodeURIComponent u = Inr v \<Longrightarrow> decodeURIComponent v = Inr u"
  by (rule codec_round_trip)

theorem decode_undoes_encode_witness:
  "(\<forall>c \<in> set [104, 233, 8364, 55357, 56832, 32]. c < (65536::nat)) \<and>
   encodeURIComponent [104, 233, 8364, 55357, 56832, 32] =
     Inr (str ''h%C3%A9%E2%82%AC%F0%9F%98%80%20'') \<and>
   decodeURIComponent (str ''h%C3%A9%E2%82%AC%F0%9F%98%80%20'') =
     Inr [104, 233, 8364, 55357, 56832, 32]"
proof -
  have a: "\<forall>c \<in> set [104, 233, 8364, 55357, 56832, 32]. c < (65536::nat)"
    by simp
  have b: "encodeURIComponent [104, 233, 8364, 55357, 56832, 32] =
      Inr (str ''h%C3%A9%E2%82%AC%F0%9F%98%80%20'')"
    by (simp add: codec_defs)
  from decode_undoes_encode [OF a b] a b show ?thesis
    by blast
qed

text \<open>
  Extra X5. The round trip of the cookie needs no more than this of the key
  \<open>appName/featureKey\<close>: it contains neither \<open>=\<close> nor \<open>;\<close> and has no white space at
  either end. Slashes inside \<open>appName\<close> or \<open>featureKey\<close> do no harm, so the default
  feature key \<open>bootstrap/js\<close> is covered.
\<close>

theorem cookie_round_trip_any_key:
  assumes "61 \<notin> set (cookie_key e)" and "59 \<notin> set (cookie_key e)"
    and "\<not> is_ws (hd (cookie_key e))" and "\<not> is_ws (last (cookie_key e))"
    and "\<forall>c \<in> set (entry_url e). c < 65536"
    and "cookie_string e = Inr s"
  shows "parseCookies s = [(cookie_key e, entry_url e)]"
proof -
  from assms(6) obtain v where enc: "encodeURIComponent (entry_url e) = Inr v"
    and s: "s = cookie_key e @ 61 # v"
    by (auto simp: cookie_string_def prepend_Inr)
  have "cookie_key e \<noteq> []"
    by (simp add: cookie_key_def)
  moreover have "\<forall>c \<in> set v. unescaped c \<or> c = 37"
    using encode_chars [OF assms(5) enc] .
  moreover have "decodeURIComponent v = Inr (entry_url e)"
    using codec_round_trip [OF assms(5) enc] .
  ultimately show ?thesis
    unfolding s using assms(1-4) by (intro parse_own_cookie)
qed

theorem cookie_round_trip_any_key_witness:
  "61 \<notin> set (cookie_key demo_entry) \<and> 59 \<notin> set (cookie_key demo_entry) \<and>
   \<not> is_ws (hd (cookie_key demo_entry)) \<and> \<not> is_ws (last (cookie_key demo_entry)) \<and>
   cookie_string demo_entry =
     Inr (str ''checkout/bootstrap/js=https%3A%2F%2Fcdn.example.com%2Fa.js'') \<and>
   parseCookies (str ''checkout/bootstrap/js=https%3A%2F%2Fcdn.example.com%2Fa.js'') =
     [(str ''checkout/bootstrap/js'', str ''https://cdn.example.com/a.js'')]"
proof -
  have k: "cookie_key demo_entry = str ''checkout/bootstrap/js''"
    "entry_url demo_entry = str ''https://cdn.example.com/a.js''"
    by (simp_all add: demo_entry_def cookie_key_def demo_url_def str_def)
  have h: "61 \<notin> set (cookie_key demo_entry)" "59 \<notin> set (cookie_key demo_entry)"
    "\<not> is_ws (hd (cookie_key demo_entry))" "\<not> is_ws (last (cookie_key demo_entry))"
    "\<forall>c \<in> set (entry_url demo_entry). c < 65536"
    unfolding k by (simp_all add: str_def is_ws_def)
  have c: "cookie_string demo_entry =
      Inr (str ''checkout/bootstrap/js=https%3A%2F%2Fcdn.example.com%2Fa.js'')"
    by (simp add: demo_entry_def demo_url_def codec_defs)
  from cookie_round_trip_any_key [OF h c] h c k show ?thesis
    by simp
qed

end
